theory Spec2Isabelle
  imports Main "HOL-Library.Sublist"
begin

section \<open>Data model of the export (common/contract)\<close>

text \<open>
  JavaScript values are modelled as follows: a \<open>string\<close> is a \<open>char list\<close>, an optional
  property \<open>p?: T\<close> is a \<open>T option\<close> (\<open>None\<close> is \<open>undefined\<close>), a \<open>number\<close> that holds a
  message or character identifier is an \<open>int\<close>, sizes are \<open>nat\<close>. A thrown \<open>Error\<close> is a
  value carrying its \<open>message\<close> text.
\<close>

datatype js_error = Error (err_message: string)

text \<open>JavaScript truthiness of an optional string: \<open>undefined\<close> and \<open>""\<close> are falsy.\<close>

fun truthy :: "string option \<Rightarrow> bool" where
  "truthy None = False"
| "truthy (Some s) = (s \<noteq> [])"

text \<open>\<open>a || b\<close> on an optional string \<open>a\<close> and a string \<open>b\<close>.\<close>

fun or_else :: "string option \<Rightarrow> string \<Rightarrow> string" where
  "or_else None d = d"
| "or_else (Some s) d = (if s \<noteq> [] then s else d)"

text \<open>A value of type \<open>string | undefined\<close> inside a template literal.\<close>

fun template_string :: "string option \<Rightarrow> string" where
  "template_string None = ''undefined''"
| "template_string (Some s) = s"

record TextEntity =
  entity_type :: string
  entity_text :: string
  entity_href :: "string option"

record Photo =
  ph_photo :: "string option"
  ph_width :: "nat option"
  ph_height :: "nat option"

datatype text_part = PlainPart string | EntityPart TextEntity

datatype text_field = TextString string | TextParts "text_part list"

record TGExportMessageDataWithoutPhoto =
  msg_id :: int
  msg_type :: string
  msg_date :: string
  msg_date_unixtime :: string
  msg_actor :: "string option"
  msg_actor_id :: "string option"
  msg_action :: "string option"
  msg_title :: "string option"
  msg_from :: "string option"
  msg_from_id :: "string option"
  msg_file :: "string option"
  msg_thumbnail :: "string option"
  msg_mime_type :: "string option"
  msg_width :: "nat option"
  msg_height :: "nat option"
  msg_media_type :: "string option"
  msg_duration_seconds :: "nat option"
  msg_text :: text_field
  msg_text_entities :: "TextEntity list"

record TGExportMessageData = TGExportMessageDataWithoutPhoto +
  msg_photo :: "string option"

record TGExportMessageDataWithPhotos = TGExportMessageDataWithoutPhoto +
  msg_photos :: "Photo list option"

text \<open>
  \<open>MessageData\<close> is the interface of \<open>src/common/contract.ts\<close> that the migration page
  imports; it has the fields of \<open>TGExportMessageData\<close>.
\<close>

type_synonym MessageData = TGExportMessageData

section \<open>Text Formatter: \<open>ParseMessageText\<close>\<close>

text \<open>The \<open>switch (entity.type)\<close>: the string one entity appends to \<open>content\<close>.\<close>

definition entity_markup :: "TextEntity \<Rightarrow> string" where
  "entity_markup entity =
     (if entity_type entity = ''bold'' then ''**'' @ entity_text entity @ ''**''
      else if entity_type entity = ''italic'' then ''*'' @ entity_text entity @ ''*''
      else if entity_type entity = ''strikethrough'' then ''~~'' @ entity_text entity @ ''~~''
      else if entity_type entity = ''link''
        then ''['' @ entity_text entity @ '']('' @ entity_text entity @ '')''
      else if entity_type entity = ''text_link''
        then ''['' @ entity_text entity @ '']('' @ template_string (entity_href entity) @ '')''
      else entity_text entity)"

text \<open>The \<open>for (const entity of message.text_entities)\<close> loop with its accumulator.\<close>

fun ParseMessageText_loop :: "TextEntity list \<Rightarrow> string \<Rightarrow> string" where
  "ParseMessageText_loop [] content = content"
| "ParseMessageText_loop (entity # rest) content =
     ParseMessageText_loop rest (content @ entity_markup entity)"

definition ParseMessageText :: "'a TGExportMessageDataWithoutPhoto_scheme \<Rightarrow> string" where
  "ParseMessageText message =
     (if msg_type message = ''service'' then or_else (msg_action message) ''''
      else ParseMessageText_loop (msg_text_entities message) '''')"

section \<open>External collaborators and module state (common/contract)\<close>

text \<open>
  The module talks to the browser (\<open>fetch\<close>), to the storage client (\<open>uploadFile\<close>,
  \<open>uploadJson\<close> of \<open>./ipfs\<close>) and to the chain client (\<open>ethers.Wallet\<close>, \<open>Contract\<close> of
  crossbell.js). None of them is part of the repository, so they are parameters: every
  asynchronous operation is a function on an abstract world \<open>'w\<close> that either throws or
  returns, and changes the world. An \<open>await\<close> that rejects is the \<open>Inl\<close> branch.
\<close>

type_synonym ('s, 'a) io = "'s \<Rightarrow> (js_error + 'a) \<times> 's"

definition io_return :: "'a \<Rightarrow> ('s, 'a) io" where
  "io_return x s = (Inr x, s)"

definition io_throw :: "js_error \<Rightarrow> ('s, 'a) io" where
  "io_throw e s = (Inl e, s)"

definition io_bind :: "('s, 'a) io \<Rightarrow> ('a \<Rightarrow> ('s, 'b) io) \<Rightarrow> ('s, 'b) io" where
  "io_bind m f s = (case m s of (Inl e, s') \<Rightarrow> (Inl e, s') | (Inr x, s') \<Rightarrow> f x s')"

text \<open>A synchronous operation that may throw, used inside an asynchronous function.\<close>

definition io_lift :: "js_error + 'a \<Rightarrow> ('s, 'a) io" where
  "io_lift r s = (r, s)"

datatype Contract = Contract string

datatype Response = Response nat

record Blob =
  blob_type :: string
  blob_size :: nat

record NoteMetadataAttachmentBase =
  att_name :: string
  att_address :: string
  att_mime_type :: string
  att_size_in_bytes :: nat
  att_alt :: string
  att_width :: "nat option"
  att_height :: "nat option"

record NoteMetadata =
  note_type :: string
  note_sources :: "string list"
  note_content :: string
  note_attachments :: "NoteMetadataAttachmentBase list"
  note_date_published :: "string option"
  note_external_urls :: "string list option"

record 'w collaborators =
  Wallet_address :: "string \<Rightarrow> js_error + string"
  new_Contract :: "string \<Rightarrow> js_error + Contract"
  metamask_Contract :: "js_error + Contract"
  connect :: "Contract \<Rightarrow> ('w, unit) io"
  fetch :: "string \<Rightarrow> ('w, Response) io"
  blob :: "Response \<Rightarrow> ('w, Blob) io"
  uploadFile :: "Blob \<Rightarrow> ('w, string) io"
  uploadJson :: "NoteMetadata \<Rightarrow> ('w, string) io"
  postNote :: "Contract \<Rightarrow> int \<Rightarrow> string \<Rightarrow> ('w, unit) io"
  fetch_character_owner :: "int \<Rightarrow> ('w, string option) io"
  getOperatorPermissionsForCharacter :: "Contract \<Rightarrow> int \<Rightarrow> string \<Rightarrow> ('w, string list) io"
  grantOperatorPermissionsForCharacter ::
    "Contract \<Rightarrow> int \<Rightarrow> string \<Rightarrow> string list \<Rightarrow> ('w, unit) io"
  toISOString :: "string \<Rightarrow> js_error + string"
  toLowerCase :: "string \<Rightarrow> string"

text \<open>
  The calls made to the collaborators are recorded, in order and with their outcome, next
  to the world. The record is not part of the program: it is what the theorems about
  ``was attempted'' and ``was not retried'' talk about.
\<close>

datatype call =
    Connect Contract
  | Fetch string
  | ResponseBlob Response
  | UploadFile Blob
  | UploadJson NoteMetadata
  | PostNote Contract int string
  | FetchCharacter int
  | GetOperatorPermissions Contract int string
  | GrantOperatorPermissions Contract int string "string list"

record 'w ext =
  world :: 'w
  calls :: "(call \<times> js_error option) list"

fun outcome :: "js_error + 'a \<Rightarrow> js_error option" where
  "outcome (Inl e) = Some e"
| "outcome (Inr x) = None"

definition logged :: "call \<Rightarrow> ('w, 'a) io \<Rightarrow> ('w ext, 'a) io" where
  "logged c f s =
     (case f (world s) of
        (r, w') \<Rightarrow> (r, \<lparr>world = w', calls = calls s @ [(c, outcome r)]\<rparr>))"

text \<open>The module-level variables \<open>gContract\<close>, \<open>signerAddress\<close> and \<open>characterId\<close>.\<close>

record module_state =
  gContract :: "Contract option"
  signerAddress :: string
  characterId :: int

definition not_initialized :: js_error where
  "not_initialized = Error ''Contract not initialized.''"

text \<open>
  \<open>initWithPrivateKey\<close> returns the outcome with the new module state: the \<open>catch\<close> block
  resets both variables and rethrows. \<open>signerAddress\<close> is assigned before the contract is
  built, and \<open>gContract\<close> before it is connected.
\<close>

definition initWithPrivateKey ::
  "'w collaborators \<Rightarrow> string \<Rightarrow> module_state \<Rightarrow> 'w ext
     \<Rightarrow> ((js_error + unit) \<times> module_state) \<times> 'w ext"
where
  "initWithPrivateKey env privateKey0 st s =
     (if privateKey0 = [] then ((Inl (Error ''No private key provided''), st), s)
      else
        let privateKey = (if \<not> prefix ''0x'' privateKey0 then ''0x'' @ privateKey0 else privateKey0)
        in (case Wallet_address env privateKey of
              Inl e \<Rightarrow> ((Inl e, st\<lparr>gContract := None, signerAddress := []\<rparr>), s)
            | Inr address \<Rightarrow>
                (case new_Contract env privateKey of
                   Inl e \<Rightarrow> ((Inl e, st\<lparr>gContract := None, signerAddress := []\<rparr>), s)
                 | Inr c \<Rightarrow>
                     (case logged (Connect c) (connect env c) s of
                        (Inl e, s') \<Rightarrow> ((Inl e, st\<lparr>gContract := None, signerAddress := []\<rparr>), s')
                      | (Inr u, s') \<Rightarrow>
                          ((Inr (), st\<lparr>gContract := Some c, signerAddress := address\<rparr>), s')))))"

definition getMetamaskProvider :: "'w collaborators \<Rightarrow> ('w ext, Contract) io" where
  "getMetamaskProvider env =
     io_bind (io_lift (metamask_Contract env)) (\<lambda>uContract.
     io_bind (logged (Connect uContract) (connect env uContract)) (\<lambda>u.
     io_return uContract))"

definition getSignerAddress :: "module_state \<Rightarrow> js_error + string" where
  "getSignerAddress st =
     (case gContract st of
        None \<Rightarrow> Inl not_initialized
      | Some c \<Rightarrow> Inr (signerAddress st))"

definition checkOperator :: "'w collaborators \<Rightarrow> module_state \<Rightarrow> ('w ext, bool) io" where
  "checkOperator env st =
     (case gContract st of
        None \<Rightarrow> io_throw not_initialized
      | Some c \<Rightarrow>
          io_bind (logged (FetchCharacter (characterId st))
                     (fetch_character_owner env (characterId st))) (\<lambda>owner.
          if Some (toLowerCase env (signerAddress st)) = map_option (toLowerCase env) owner
          then io_return True
          else
            io_bind (logged (GetOperatorPermissions c (characterId st) (signerAddress st))
                       (getOperatorPermissionsForCharacter env c (characterId st) (signerAddress st)))
              (\<lambda>permissions. io_return (''POST_NOTE'' \<in> set permissions))))"

definition addOperator :: "'w collaborators \<Rightarrow> module_state \<Rightarrow> ('w ext, unit) io" where
  "addOperator env st =
     (case gContract st of
        None \<Rightarrow> io_throw not_initialized
      | Some c \<Rightarrow>
          io_bind (getMetamaskProvider env) (\<lambda>uProvider.
          logged (GrantOperatorPermissions uProvider (characterId st) (signerAddress st) [''POST_NOTE''])
            (grantOperatorPermissionsForCharacter env uProvider (characterId st) (signerAddress st)
               [''POST_NOTE''])))"

definition removeOperator :: "'w collaborators \<Rightarrow> module_state \<Rightarrow> ('w ext, unit) io" where
  "removeOperator env st =
     (case gContract st of
        None \<Rightarrow> io_throw not_initialized
      | Some c \<Rightarrow>
          io_bind (getMetamaskProvider env) (\<lambda>uProvider.
          logged (GrantOperatorPermissions uProvider (characterId st) (signerAddress st) [])
            (grantOperatorPermissionsForCharacter env uProvider (characterId st) (signerAddress st)
               [])))"

section \<open>Note Publisher: \<open>signerPostNote\<close>\<close>

text \<open>\<open>path.split("/").pop()\<close>: what follows the last slash (the whole string without one).\<close>

definition file_name :: "string \<Rightarrow> string" where
  "file_name path = rev (takeWhile (\<lambda>c. c \<noteq> CHR ''/'') (rev path))"

text \<open>
  A whole number in a template literal: decimal digits, with a sign when negative. This
  is what JavaScript prints for the integers below \<open>10^21\<close> in magnitude, which the
  identifiers of an export are; beyond that it prints an exponent form.
\<close>

definition digit_char :: "nat \<Rightarrow> char" where
  "digit_char d = ''0123456789'' ! d"

fun decimal_digits :: "nat \<Rightarrow> string \<Rightarrow> string" where
  "decimal_digits n later =
     (if 10 \<le> n then decimal_digits (n div 10) (digit_char (n mod 10) # later)
      else digit_char n # later)"

definition string_of_nat :: "nat \<Rightarrow> string" where
  "string_of_nat n = decimal_digits n []"

definition string_of_int :: "int \<Rightarrow> string" where
  "string_of_int i = (if 0 \<le> i then string_of_nat (nat i) else CHR ''-'' # string_of_nat (nat (- i)))"

declare decimal_digits.simps [simp del]

text \<open>
  The loop over \<open>message.photos\<close>: \<open>break\<close> at the first photo without an address,
  otherwise fetch it, read it as a blob, upload it and push the attachment record.
\<close>

fun upload_photos ::
  "'w collaborators \<Rightarrow> Photo list \<Rightarrow> NoteMetadataAttachmentBase list
     \<Rightarrow> ('w ext, NoteMetadataAttachmentBase list) io"
where
  "upload_photos env [] mediaAttachments = io_return mediaAttachments"
| "upload_photos env (photo # rest) mediaAttachments =
     (if \<not> truthy (ph_photo photo) then io_return mediaAttachments
      else
        let src = the (ph_photo photo); mediaFileName = file_name src
        in io_bind (logged (Fetch src) (fetch env src)) (\<lambda>result.
           io_bind (logged (ResponseBlob result) (blob env result)) (\<lambda>b.
           io_bind (logged (UploadFile b) (uploadFile env b)) (\<lambda>ipfsUri.
           upload_photos env rest
             (mediaAttachments @
               [\<lparr>att_name = mediaFileName, att_address = ipfsUri, att_mime_type = blob_type b,
                 att_size_in_bytes = blob_size b, att_alt = mediaFileName,
                 att_width = ph_width photo, att_height = ph_height photo\<rparr>])))))"

text \<open>The \<open>if (!!message.file)\<close> block: the single generic attachment.\<close>

definition upload_file ::
  "'w collaborators \<Rightarrow> 'a TGExportMessageDataWithoutPhoto_scheme
     \<Rightarrow> NoteMetadataAttachmentBase list \<Rightarrow> ('w ext, NoteMetadataAttachmentBase list) io"
where
  "upload_file env message mediaAttachments =
     (if \<not> truthy (msg_file message) then io_return mediaAttachments
      else
        let src = the (msg_file message); mediaFileName = file_name src
        in io_bind (logged (Fetch src) (fetch env src)) (\<lambda>result.
           io_bind (logged (ResponseBlob result) (blob env result)) (\<lambda>b.
           io_bind (logged (UploadFile b) (uploadFile env b)) (\<lambda>ipfsUri.
           io_return
             (mediaAttachments @
               [\<lparr>att_name = mediaFileName, att_address = ipfsUri,
                 att_mime_type = or_else (msg_mime_type message) (blob_type b),
                 att_size_in_bytes = blob_size b, att_alt = mediaFileName,
                 att_width = msg_width message, att_height = msg_height message\<rparr>])))))"

definition signerPostNote ::
  "'w collaborators \<Rightarrow> module_state \<Rightarrow> TGExportMessageDataWithPhotos \<Rightarrow> string
     \<Rightarrow> ('w ext, unit) io"
where
  "signerPostNote env st message channelName =
     (case gContract st of
        None \<Rightarrow> io_throw not_initialized
      | Some c \<Rightarrow>
          io_bind (case msg_photos message of
                     None \<Rightarrow> io_return []
                   | Some photos \<Rightarrow> upload_photos env photos []) (\<lambda>photoAttachments.
          io_bind (upload_file env message photoAttachments) (\<lambda>mediaAttachments.
          io_bind (io_lift (toISOString env (msg_date message))) (\<lambda>date_published.
          let note = \<lparr>note_type = ''note'', note_sources = [''T2C'', ''Telegram''],
                      note_content = ParseMessageText message,
                      note_attachments = mediaAttachments,
                      note_date_published = Some date_published,
                      note_external_urls =
                        Some (if channelName \<noteq> []
                              then [''https://t.me/'' @ channelName @ ''/''
                                      @ string_of_int (msg_id message)]
                              else [])\<rparr>
          in io_bind (logged (UploadJson note) (uploadJson env note)) (\<lambda>noteIPFSUri.
             logged (PostNote c (characterId st) noteIPFSUri)
               (postNote env c (characterId st) noteIPFSUri))))))"

text \<open>
  \<open>signerPostNote\<close> as \<open>src/common/contract.ts\<close> has it, the version the migration page
  calls: one optional \<open>photo\<close> instead of the \<open>photos\<close> list, no channel name, and a note
  without publication date and external links.
\<close>

definition upload_photo ::
  "'w collaborators \<Rightarrow> MessageData \<Rightarrow> NoteMetadataAttachmentBase list
     \<Rightarrow> ('w ext, NoteMetadataAttachmentBase list) io"
where
  "upload_photo env message mediaAttachments =
     (if \<not> truthy (msg_photo message) then io_return mediaAttachments
      else
        let src = the (msg_photo message); mediaFileName = file_name src
        in io_bind (logged (Fetch src) (fetch env src)) (\<lambda>result.
           io_bind (logged (ResponseBlob result) (blob env result)) (\<lambda>b.
           io_bind (logged (UploadFile b) (uploadFile env b)) (\<lambda>ipfsUri.
           io_return
             (mediaAttachments @
               [\<lparr>att_name = mediaFileName, att_address = ipfsUri, att_mime_type = blob_type b,
                 att_size_in_bytes = blob_size b, att_alt = mediaFileName,
                 att_width = msg_width message, att_height = msg_height message\<rparr>])))))"

definition signerPostNote_contract ::
  "'w collaborators \<Rightarrow> module_state \<Rightarrow> MessageData \<Rightarrow> ('w ext, unit) io"
where
  "signerPostNote_contract env st message =
     (case gContract st of
        None \<Rightarrow> io_throw not_initialized
      | Some c \<Rightarrow>
          io_bind (upload_photo env message []) (\<lambda>photoAttachments.
          io_bind (upload_file env message photoAttachments) (\<lambda>mediaAttachments.
          let note = \<lparr>note_type = ''note'', note_sources = [''T2C'', ''Telegram''],
                      note_content = ParseMessageText message,
                      note_attachments = mediaAttachments,
                      note_date_published = None,
                      note_external_urls = None\<rparr>
          in io_bind (logged (UploadJson note) (uploadJson env note)) (\<lambda>noteIPFSUri.
             logged (PostNote c (characterId st) noteIPFSUri)
               (postNote env c (characterId st) noteIPFSUri)))))"

section \<open>Migration Driver (pages/Migrate)\<close>

record messagesPendingMigration =
  message :: MessageData
  isToMigrate :: bool
  isPendingMigrate :: bool
  isMigrated :: bool

text \<open>
  Modelled from the spec: the module \<open>common/session\<close> (\<open>getProgress\<close>, \<open>setProgress\<close>,
  \<open>getSetting\<close>) is not among the sources. The spec describes one persisted record
  \<open>{finishedIDs, includeService, ...}\<close> that \<open>getProgress()\<close> reads and
  \<open>setProgress(record)\<close> replaces; \<open>getSetting()\<close> is read for \<open>includeService\<close> by the
  page, and is a second stored record here.
\<close>

record Progress =
  finishedIDs :: "int list"
  progress_includeService :: bool

record Setting =
  includeService :: bool

text \<open>
  What the page does that the properties speak of, in the order it does it: the calls of
  \<open>setLoadingMessage(`Processing ${index} of ${messages.length} notes...`)\<close>, of
  \<open>setMessages\<close>, of \<open>setProgress\<close> and of \<open>signerPostNote\<close> (tagged with the index of the
  loop iteration that makes the call, and with the error when the call throws).
\<close>

datatype effect =
    Processing nat nat
  | SetMessages "messagesPendingMigration list"
  | SetProgress Progress
  | SignerPostNote nat MessageData "js_error option"

text \<open>
  The state of the page: the React state variables, the session store, the route the page
  navigated to, and the state \<open>'x\<close> of everything behind \<open>signerPostNote\<close> and \<open>fetch\<close>.
\<close>

record 'x page_state =
  isLoading :: bool
  loadingMessage :: string
  isShowingError :: bool
  errorMessage :: string
  messages :: "messagesPendingMigration list"
  stored_progress :: Progress
  stored_setting :: Setting
  route :: "string option"
  outside :: 'x
  effects :: "effect list"

definition getProgress :: "'x page_state \<Rightarrow> Progress" where
  "getProgress s = stored_progress s"

definition getSetting :: "'x page_state \<Rightarrow> Setting" where
  "getSetting s = stored_setting s"

definition setProgress :: "Progress \<Rightarrow> 'x page_state \<Rightarrow> 'x page_state" where
  "setProgress p s = s\<lparr>stored_progress := p, effects := effects s @ [SetProgress p]\<rparr>"

definition setMessages :: "messagesPendingMigration list \<Rightarrow> 'x page_state \<Rightarrow> 'x page_state" where
  "setMessages ms s = s\<lparr>messages := ms, effects := effects s @ [SetMessages ms]\<rparr>"

definition processing_text :: "nat \<Rightarrow> nat \<Rightarrow> string" where
  "processing_text index n =
     ''Processing '' @ string_of_nat index @ '' of '' @ string_of_nat n @ '' notes...''"

definition setLoadingMessage_processing :: "nat \<Rightarrow> nat \<Rightarrow> 'x page_state \<Rightarrow> 'x page_state" where
  "setLoadingMessage_processing index n s =
     s\<lparr>loadingMessage := processing_text index n, effects := effects s @ [Processing index n]\<rparr>"

text \<open>The callback of \<open>results.messages.map\<close> in \<open>loadMessages\<close>.\<close>

definition parse_message :: "Setting \<Rightarrow> Progress \<Rightarrow> MessageData \<Rightarrow> messagesPendingMigration" where
  "parse_message settings currentProgress msg =
     (let isService = (msg_type msg = ''service'');
          isMigrated = (msg_id msg \<in> set (finishedIDs currentProgress))
      in \<lparr>message = msg,
          isToMigrate = (\<not> isMigrated \<and> (includeService settings \<or> \<not> isService)),
          isPendingMigrate = False,
          isMigrated = isMigrated\<rparr>)"

text \<open>
  \<open>loadMessages\<close>; \<open>load_export\<close> is \<open>fetch("result.json").then((res) => res.json())\<close>
  followed by the read of \<open>results.messages\<close>, which throws when the export cannot be
  fetched or parsed.
\<close>

definition loadMessages :: "('x, MessageData list) io \<Rightarrow> 'x page_state \<Rightarrow> 'x page_state" where
  "loadMessages load_export s =
     (let s1 = s\<lparr>loadingMessage := ''Loading messages...'', isLoading := True\<rparr>;
          settings = getSetting s1
      in case load_export (outside s1) of
           (Inl e, x') \<Rightarrow>
             s1\<lparr>outside := x', errorMessage := err_message e, isShowingError := True,
                isLoading := False\<rparr>
         | (Inr results_messages, x') \<Rightarrow>
             (let s2 = s1\<lparr>outside := x'\<rparr>;
                  currentProgress = getProgress s2;
                  parsedMessages = map (parse_message settings currentProgress) results_messages
              in (setMessages parsedMessages s2)\<lparr>isLoading := False\<rparr>))"

text \<open>
  The \<open>onClick\<close> of the list item at \<open>index\<close>: the list is rebuilt from the two slices
  around a copy of the item with \<open>isToMigrate\<close> negated. A list item exists only for an
  index inside the list.
\<close>

definition toggle_onClick :: "nat \<Rightarrow> 'x page_state \<Rightarrow> 'x page_state" where
  "toggle_onClick index s =
     (if index < length (messages s) then
        let wrappedMessage = messages s ! index
        in setMessages
             (take index (messages s)
                @ [wrappedMessage\<lparr>isToMigrate := \<not> isToMigrate wrappedMessage\<rparr>]
                @ drop (index + 1) (messages s)) s
      else s)"

text \<open>
  The \<open>for\<close> loop of the start button. \<open>messages\<close> is the list the handler closed over
  when the button was rendered: it does not change while the loop runs, and every
  \<open>setMessages\<close> rebuilds the displayed list from it.
\<close>

function run_loop ::
  "(MessageData \<Rightarrow> ('x, unit) io) \<Rightarrow> messagesPendingMigration list \<Rightarrow> nat
     \<Rightarrow> ('x page_state, unit) io"
where
  "run_loop signerPostNote' messages' index s =
     (if index < length messages' then
        let wrappedMessage = messages' ! index;
            s1 = setLoadingMessage_processing index (length messages') s
        in if isToMigrate wrappedMessage then
             let s2 = setMessages
                        (take index messages'
                           @ [wrappedMessage\<lparr>isPendingMigrate := True\<rparr>]
                           @ drop (index + 1) messages') s1
             in case signerPostNote' (message wrappedMessage) (outside s2) of
                  (Inl e, x') \<Rightarrow>
                    (Inl e,
                     s2\<lparr>outside := x',
                        effects := effects s2
                          @ [SignerPostNote index (message wrappedMessage) (Some e)]\<rparr>)
                | (Inr u, x') \<Rightarrow>
                    let s3 = s2\<lparr>outside := x',
                                effects := effects s2
                                  @ [SignerPostNote index (message wrappedMessage) None]\<rparr>;
                        progress = getProgress s3;
                        s4 = setProgress
                               (progress\<lparr>finishedIDs :=
                                   finishedIDs progress @ [msg_id (message wrappedMessage)]\<rparr>) s3;
                        s5 = setMessages
                               (take index messages'
                                  @ [wrappedMessage\<lparr>isPendingMigrate := False, isMigrated := True\<rparr>]
                                  @ drop (index + 1) messages') s4
                    in run_loop signerPostNote' messages' (index + 1) s5
           else run_loop signerPostNote' messages' (index + 1) s1
      else (Inr (), s))"
  by pat_completeness auto
termination
  by (relation "measure (\<lambda>(p, ms, index, s). length ms - index)") auto

declare run_loop.simps [simp del]

text \<open>
  The \<open>onClick\<close> of the start button: reset of the completed identifiers, the loop inside
  \<open>try\<close>, \<open>nav("/finish")\<close> after it, the error dialog in \<open>catch\<close>, and \<open>setLoading(false)\<close>
  in both cases.
\<close>

definition start_onClick ::
  "(MessageData \<Rightarrow> ('x, unit) io) \<Rightarrow> 'x page_state \<Rightarrow> 'x page_state"
where
  "start_onClick signerPostNote' s =
     (let s1 = s\<lparr>isLoading := True, loadingMessage := ''Initializing basic information...''\<rparr>;
          s2 = setProgress ((getProgress s1)\<lparr>finishedIDs := []\<rparr>) s1
      in case run_loop signerPostNote' (messages s) 0 s2 of
           (Inr u, s3) \<Rightarrow> s3\<lparr>route := Some ''/finish'', isLoading := False\<rparr>
         | (Inl e, s3) \<Rightarrow>
             s3\<lparr>errorMessage := err_message e, isShowingError := True, isLoading := False\<rparr>)"

text \<open>The page as \<open>useState\<close> initialises it, over a given session store.\<close>

definition initial_page :: "Progress \<Rightarrow> Setting \<Rightarrow> 'x \<Rightarrow> 'x page_state" where
  "initial_page p st x =
     \<lparr>isLoading = True, loadingMessage = ''Loading collections...'', isShowingError = False,
      errorMessage = [], messages = [], stored_progress = p, stored_setting = st,
      route = None, outside = x, effects = []\<rparr>"

section \<open>Vocabulary of the properties\<close>

text \<open>A photo reference has an address when \<open>photo.photo\<close> is a non-empty string.\<close>

definition has_address :: "Photo \<Rightarrow> bool" where
  "has_address photo = truthy (ph_photo photo)"

text \<open>The addresses fetched, in the order of the \<open>fetch\<close> calls.\<close>

fun fetched :: "(call \<times> js_error option) list \<Rightarrow> string list" where
  "fetched [] = []"
| "fetched ((Fetch url, r) # cs) = url # fetched cs"
| "fetched (other # cs) = fetched cs"

fun is_PostNote :: "call \<Rightarrow> bool" where
  "is_PostNote (PostNote c cid uri) = True"
| "is_PostNote other = False"

text \<open>
  Calls that all succeeded and none of which is the on-chain transaction; and a run of
  such calls followed by one failing call that is not the transaction either.
\<close>

definition preparation :: "(call \<times> js_error option) list \<Rightarrow> bool" where
  "preparation cs = (\<forall>(c, r) \<in> set cs. r = None \<and> \<not> is_PostNote c)"

definition failed_step :: "js_error \<Rightarrow> (call \<times> js_error option) list \<Rightarrow> bool" where
  "failed_step e new =
     (\<exists>pre c. new = pre @ [(c, Some e)] \<and> preparation pre \<and> \<not> is_PostNote c)"

text \<open>
  The three awaits that move one binary into storage (\<open>fetch\<close>, \<open>blob\<close>, \<open>uploadFile\<close>),
  which \<open>signerPostNote\<close> writes out for the photos and again for the file.
\<close>

definition transfer :: "'w collaborators \<Rightarrow> string \<Rightarrow> ('w ext, Blob \<times> string) io" where
  "transfer env src =
     io_bind (logged (Fetch src) (fetch env src)) (\<lambda>result.
     io_bind (logged (ResponseBlob result) (blob env result)) (\<lambda>b.
     io_bind (logged (UploadFile b) (uploadFile env b)) (\<lambda>ipfsUri. io_return (b, ipfsUri))))"

text \<open>
  What one call of the publisher may have called: successful preparation first, then
  either nothing more (a synchronous throw), or one failing call whose error is the
  outcome, or the accepted transaction.
\<close>

definition publish_attempt :: "js_error + unit \<Rightarrow> (call \<times> js_error option) list \<Rightarrow> bool" where
  "publish_attempt r new =
     (\<exists>pre. preparation pre
        \<and> (case r of
              Inl e \<Rightarrow> new = pre \<or> (\<exists>c. new = pre @ [(c, Some e)])
            | Inr u \<Rightarrow> (\<exists>c cid uri. new = pre @ [(PostNote c cid uri, None)])))"

text \<open>An error names a message when its text contains the identifier in decimal.\<close>

definition names_identifier :: "js_error \<Rightarrow> int \<Rightarrow> bool" where
  "names_identifier e i = sublist (string_of_int i) (err_message e)"

section \<open>Vocabulary of the driver properties\<close>

text \<open>
  The two lists the run displays for the candidate at an index: the click-time list with
  that candidate in progress, and with that candidate done.
\<close>

definition pending_list :: "messagesPendingMigration list \<Rightarrow> nat \<Rightarrow> messagesPendingMigration list" where
  "pending_list ms i = ms[i := (ms ! i)\<lparr>isPendingMigrate := True\<rparr>]"

definition done_list :: "messagesPendingMigration list \<Rightarrow> nat \<Rightarrow> messagesPendingMigration list" where
  "done_list ms i = ms[i := (ms ! i)\<lparr>isPendingMigrate := False, isMigrated := True\<rparr>]"

text \<open>The identifiers of the selected candidates before an index, in list order.\<close>

definition completed_before :: "messagesPendingMigration list \<Rightarrow> nat \<Rightarrow> int list" where
  "completed_before ms i = map (msg_id \<circ> message) (filter isToMigrate (take i ms))"

text \<open>
  What the loop does for one candidate: for a selected one the progress message, the
  in-progress update and the publisher call, followed on success by the write of the
  Progress Record and the done update; for the others the progress message only.
\<close>

definition attempt_effects :: "messagesPendingMigration list \<Rightarrow> nat \<Rightarrow> js_error option \<Rightarrow> effect list" where
  "attempt_effects ms i r =
     [Processing i (length ms), SetMessages (pending_list ms i),
      SignerPostNote i (message (ms ! i)) r]"

definition candidate_effects :: "Progress \<Rightarrow> messagesPendingMigration list \<Rightarrow> nat \<Rightarrow> effect list" where
  "candidate_effects p ms i =
     (if isToMigrate (ms ! i)
      then attempt_effects ms i None
             @ [SetProgress (p\<lparr>finishedIDs := completed_before ms (Suc i)\<rparr>),
                SetMessages (done_list ms i)]
      else [Processing i (length ms)])"

text \<open>
  What the loop does from index \<open>i\<close> when it stops at index \<open>k\<close>, either at the end of the
  list or on a failing publisher call; and what holds of the state it stops in.
\<close>

definition loop_effects ::
  "Progress \<Rightarrow> messagesPendingMigration list \<Rightarrow> nat \<Rightarrow> nat \<Rightarrow> js_error option \<Rightarrow> effect list"
where
  "loop_effects p ms i k failure =
     concat (map (candidate_effects p ms) [i..<k])
       @ (case failure of None \<Rightarrow> [] | Some e \<Rightarrow> attempt_effects ms k (Some e))"

definition loop_result ::
  "(MessageData \<Rightarrow> ('x, unit) io) \<Rightarrow> messagesPendingMigration list \<Rightarrow> nat
     \<Rightarrow> 'x page_state \<Rightarrow> js_error + unit \<Rightarrow> 'x page_state \<Rightarrow> nat \<Rightarrow> bool"
where
  "loop_result pub ms i s r s' k =
     (i \<le> k \<and> k \<le> length ms
      \<and> stored_progress s' = (stored_progress s)\<lparr>finishedIDs := completed_before ms k\<rparr>
      \<and> isLoading s' = isLoading s \<and> isShowingError s' = isShowingError s
      \<and> errorMessage s' = errorMessage s \<and> route s' = route s
      \<and> stored_setting s' = stored_setting s
      \<and> effects s' = effects s @ loop_effects (stored_progress s) ms i k (outcome r)
      \<and> (case r of
            Inr u \<Rightarrow> k = length ms
          | Inl e \<Rightarrow> k < length ms \<and> isToMigrate (ms ! k) \<and> messages s' = pending_list ms k
                     \<and> (\<exists>w. pub (message (ms ! k)) w = (Inl e, outside s'))))"

text \<open>The same for the whole handler, which first resets the completed identifiers.\<close>

definition run_effects ::
  "Progress \<Rightarrow> messagesPendingMigration list \<Rightarrow> nat \<Rightarrow> js_error option \<Rightarrow> effect list"
where
  "run_effects p ms k failure = SetProgress (p\<lparr>finishedIDs := []\<rparr>) # loop_effects p ms 0 k failure"

definition run_result ::
  "(MessageData \<Rightarrow> ('x, unit) io) \<Rightarrow> 'x page_state \<Rightarrow> 'x page_state \<Rightarrow> nat \<Rightarrow> js_error option \<Rightarrow> bool"
where
  "run_result pub s s' k failure =
     (k \<le> length (messages s)
      \<and> effects s' = effects s @ run_effects (stored_progress s) (messages s) k failure
      \<and> stored_progress s' = (stored_progress s)\<lparr>finishedIDs := completed_before (messages s) k\<rparr>
      \<and> stored_setting s' = stored_setting s
      \<and> \<not> isLoading s'
      \<and> (case failure of
            None \<Rightarrow> k = length (messages s) \<and> route s' = Some ''/finish''
                     \<and> isShowingError s' = isShowingError s \<and> errorMessage s' = errorMessage s
          | Some e \<Rightarrow> k < length (messages s) \<and> isToMigrate (messages s ! k)
                     \<and> messages s' = pending_list (messages s) k
                     \<and> route s' = route s \<and> isShowingError s' \<and> errorMessage s' = err_message e
                     \<and> (\<exists>w. pub (message (messages s ! k)) w = (Inl e, outside s'))))"

section \<open>Example inputs\<close>

definition example_message :: "int \<Rightarrow> string \<Rightarrow> TextEntity list \<Rightarrow> MessageData" where
  "example_message i t es =
     \<lparr>msg_id = i, msg_type = t, msg_date = ''2022-05-01T10:00:00'',
      msg_date_unixtime = ''1651399200'', msg_actor = None, msg_actor_id = None,
      msg_action = None, msg_title = None, msg_from = None, msg_from_id = None,
      msg_file = None, msg_thumbnail = None, msg_mime_type = None, msg_width = None,
      msg_height = None, msg_media_type = None, msg_duration_seconds = None,
      msg_text = TextString [], msg_text_entities = es, msg_photo = None\<rparr>"

definition example_entities :: "TextEntity list" where
  "example_entities =
     [\<lparr>entity_type = ''plain'', entity_text = ''a '', entity_href = None\<rparr>,
      \<lparr>entity_type = ''bold'', entity_text = ''b'', entity_href = None\<rparr>,
      \<lparr>entity_type = ''italic'', entity_text = ''c'', entity_href = None\<rparr>,
      \<lparr>entity_type = ''strikethrough'', entity_text = ''d'', entity_href = None\<rparr>,
      \<lparr>entity_type = ''link'', entity_text = ''e.org'', entity_href = None\<rparr>,
      \<lparr>entity_type = ''text_link'', entity_text = ''f'', entity_href = Some ''g.org''\<rparr>,
      \<lparr>entity_type = ''spoiler'', entity_text = ''h'', entity_href = None\<rparr>]"

text \<open>
  The export of the scenarios: messages 1 to 3, message 2 of kind service. The outside
  world of the examples is a counter of the notes published so far.
\<close>

definition example_export :: "MessageData list" where
  "example_export =
     [example_message 1 ''message'' [], example_message 2 ''service'' [],
      example_message 3 ''message'' []]"

definition example_page :: "int list \<Rightarrow> bool \<Rightarrow> nat page_state" where
  "example_page finished incl =
     loadMessages (io_return example_export)
       (initial_page \<lparr>finishedIDs = finished, progress_includeService = incl\<rparr>
          \<lparr>includeService = incl\<rparr> 0)"

text \<open>A publisher that rejects the message with a given identifier and accepts the others.\<close>

definition failing_on :: "int \<Rightarrow> MessageData \<Rightarrow> (nat, unit) io" where
  "failing_on bad msg n =
     (if msg_id msg = bad then (Inl (Error ''Failed to fetch''), n) else (Inr (), Suc n))"

text \<open>
  Collaborators over the same counter: the key \<open>0x1234\<close> is the only valid one, one
  address cannot be fetched, and the chain accepts or rejects every transaction.
\<close>

definition example_env :: "string \<Rightarrow> bool \<Rightarrow> nat collaborators" where
  "example_env bad_url chain_ok =
     \<lparr>Wallet_address =
        (\<lambda>k. if k = ''0x1234'' then Inr ''0xSigner'' else Inl (Error ''invalid private key'')),
      new_Contract = (\<lambda>k. Inr (Contract k)),
      metamask_Contract = Inr (Contract ''window.ethereum''),
      connect = (\<lambda>c. io_return ()),
      fetch = (\<lambda>url n. if url = bad_url then (Inl (Error ''Failed to fetch''), n)
                       else (Inr (Response (length url)), n)),
      blob = (\<lambda>r. io_return \<lparr>blob_type = ''image/jpeg'', blob_size = 2048\<rparr>),
      uploadFile = (\<lambda>b. io_return ''ipfs://file''),
      uploadJson = (\<lambda>note. io_return ''ipfs://note''),
      postNote = (\<lambda>c cid uri n. if chain_ok then (Inr (), Suc n)
                                 else (Inl (Error ''transaction rejected''), n)),
      fetch_character_owner = (\<lambda>cid. io_return None),
      getOperatorPermissionsForCharacter = (\<lambda>c cid a. io_return []),
      grantOperatorPermissionsForCharacter = (\<lambda>c cid a ps. io_return ()),
      toISOString = (\<lambda>d. Inr (d @ ''.000Z'')),
      toLowerCase = (\<lambda>a. a)\<rparr>"

definition example_module :: module_state where
  "example_module =
     \<lparr>gContract = Some (Contract ''0x1234''), signerAddress = ''0xSigner'', characterId = 42\<rparr>"

definition empty_ext :: "nat ext" where
  "empty_ext = \<lparr>world = 0, calls = []\<rparr>"

text \<open>Four photo references, the third without an address.\<close>

definition example_photos :: "Photo list" where
  "example_photos =
     [\<lparr>ph_photo = Some ''photos/a.jpg'', ph_width = Some 800, ph_height = Some 600\<rparr>,
      \<lparr>ph_photo = Some ''photos/b.jpg'', ph_width = Some 640, ph_height = Some 480\<rparr>,
      \<lparr>ph_photo = None, ph_width = None, ph_height = None\<rparr>,
      \<lparr>ph_photo = Some ''photos/d.jpg'', ph_width = Some 320, ph_height = Some 240\<rparr>]"

text \<open>
  A message with photos, as the \<open>signerPostNote\<close> with the photo loop takes it, and the
  calls of a run in which the second photo cannot be fetched.
\<close>

definition example_post :: "int \<Rightarrow> Photo list option \<Rightarrow> TGExportMessageDataWithPhotos" where
  "example_post i photos =
     \<lparr>msg_id = i, msg_type = ''message'', msg_date = ''2022-05-01T10:00:00'',
      msg_date_unixtime = ''1651399200'', msg_actor = None, msg_actor_id = None,
      msg_action = None, msg_title = None, msg_from = Some ''Channel'', msg_from_id = None,
      msg_file = None, msg_thumbnail = None, msg_mime_type = None, msg_width = None,
      msg_height = None, msg_media_type = None, msg_duration_seconds = None,
      msg_text = TextString ''hi'',
      msg_text_entities = [\<lparr>entity_type = ''plain'', entity_text = ''hi'', entity_href = None\<rparr>],
      msg_photos = photos\<rparr>"

definition failed_fetch_calls :: "(call \<times> js_error option) list" where
  "failed_fetch_calls =
     [(Fetch ''photos/a.jpg'', None), (ResponseBlob (Response 12), None),
      (UploadFile \<lparr>blob_type = ''image/jpeg'', blob_size = 2048\<rparr>, None),
      (Fetch ''photos/b.jpg'', Some (Error ''Failed to fetch''))]"

text \<open>
  The candidate lists of the scenarios: the export loaded with nothing completed, loaded
  with message 1 completed, and the latter after the user selected message 1 again.
\<close>

definition example_candidates :: "messagesPendingMigration list" where
  "example_candidates =
     [\<lparr>message = example_message 1 ''message'' [], isToMigrate = True,
       isPendingMigrate = False, isMigrated = False\<rparr>,
      \<lparr>message = example_message 2 ''service'' [], isToMigrate = False,
       isPendingMigrate = False, isMigrated = False\<rparr>,
      \<lparr>message = example_message 3 ''message'' [], isToMigrate = True,
       isPendingMigrate = False, isMigrated = False\<rparr>]"

definition completed_candidates :: "messagesPendingMigration list" where
  "completed_candidates =
     [\<lparr>message = example_message 1 ''message'' [], isToMigrate = False,
       isPendingMigrate = False, isMigrated = True\<rparr>,
      \<lparr>message = example_message 2 ''service'' [], isToMigrate = False,
       isPendingMigrate = False, isMigrated = False\<rparr>,
      \<lparr>message = example_message 3 ''message'' [], isToMigrate = True,
       isPendingMigrate = False, isMigrated = False\<rparr>]"

definition reselected_candidates :: "messagesPendingMigration list" where
  "reselected_candidates =
     [\<lparr>message = example_message 1 ''message'' [], isToMigrate = True,
       isPendingMigrate = False, isMigrated = True\<rparr>,
      \<lparr>message = example_message 2 ''service'' [], isToMigrate = False,
       isPendingMigrate = False, isMigrated = False\<rparr>,
      \<lparr>message = example_message 3 ''message'' [], isToMigrate = True,
       isPendingMigrate = False, isMigrated = False\<rparr>]"

definition reselected_page :: "nat page_state" where
  "reselected_page = toggle_onClick 0 (example_page [1] False)"

text \<open>
  The same export with a photo on message 3, the page loaded from it over the recorded
  collaborators, and the publisher of \<open>src/common/contract.ts\<close> with a storage that cannot
  fetch that photo.
\<close>

definition photo_candidates :: "messagesPendingMigration list" where
  "photo_candidates =
     [\<lparr>message = example_message 1 ''message'' [], isToMigrate = True,
       isPendingMigrate = False, isMigrated = False\<rparr>,
      \<lparr>message = example_message 2 ''service'' [], isToMigrate = False,
       isPendingMigrate = False, isMigrated = False\<rparr>,
      \<lparr>message = (example_message 3 ''message'' [])\<lparr>msg_photo := Some ''photos/c.jpg''\<rparr>,
       isToMigrate = True, isPendingMigrate = False, isMigrated = False\<rparr>]"

definition photo_page :: "nat ext page_state" where
  "photo_page =
     loadMessages (io_return (map message photo_candidates))
       (initial_page \<lparr>finishedIDs = [], progress_includeService = False\<rparr>
          \<lparr>includeService = False\<rparr> empty_ext)"

definition example_publisher :: "MessageData \<Rightarrow> (nat ext, unit) io" where
  "example_publisher = signerPostNote_contract (example_env ''photos/c.jpg'' True) example_module"

section \<open>Properties of the Text Formatter\<close>

lemma ParseMessageText_loop_concat:
  "ParseMessageText_loop es content = content @ concat (map entity_markup es)"
  by (induction es arbitrary: content) simp_all

text \<open>
  Claim C6. For a message of kind service the formatter returns the action description
  (the empty string when absent), whatever the text entities are. For any other message it
  returns the concatenation, in input order, of the entities rendered one by one: bold in
  double asterisks, italic in single asterisks, strikethrough in double tildes, link as a
  hyperlink whose label and target are the entity's text, text-link as a hyperlink from
  the entity's text to its explicit target, and every other type as the raw text. An empty
  entity list of a content message formats to the empty string.
\<close>

theorem ParseMessageText_contract:
  "(msg_type m = ''service'' \<longrightarrow>
      ParseMessageText m = (case msg_action m of None \<Rightarrow> '''' | Some a \<Rightarrow> a))
   \<and> (msg_type m \<noteq> ''service'' \<longrightarrow>
      ParseMessageText m = concat (map entity_markup (msg_text_entities m)))
   \<and> (msg_type m \<noteq> ''service'' \<and> msg_text_entities m = [] \<longrightarrow> ParseMessageText m = '''')
   \<and> (entity_type e = ''bold'' \<longrightarrow> entity_markup e = ''**'' @ entity_text e @ ''**'')
   \<and> (entity_type e = ''italic'' \<longrightarrow> entity_markup e = ''*'' @ entity_text e @ ''*'')
   \<and> (entity_type e = ''strikethrough'' \<longrightarrow> entity_markup e = ''~~'' @ entity_text e @ ''~~'')
   \<and> (entity_type e = ''link'' \<longrightarrow>
        entity_markup e = ''['' @ entity_text e @ '']('' @ entity_text e @ '')'')
   \<and> (entity_type e = ''text_link'' \<and> entity_href e = Some target \<longrightarrow>
        entity_markup e = ''['' @ entity_text e @ '']('' @ target @ '')'')
   \<and> (entity_type e \<notin> {''bold'', ''italic'', ''strikethrough'', ''link'', ''text_link''} \<longrightarrow>
        entity_markup e = entity_text e)"
proof -
  have service: "msg_type m = ''service'' \<longrightarrow>
      ParseMessageText m = (case msg_action m of None \<Rightarrow> '''' | Some a \<Rightarrow> a)"
    by (cases "msg_action m") (simp_all add: ParseMessageText_def)
  have content: "msg_type m \<noteq> ''service'' \<longrightarrow>
      ParseMessageText m = concat (map entity_markup (msg_text_entities m))"
    by (simp add: ParseMessageText_def ParseMessageText_loop_concat)
  have spans: "(entity_type e = ''bold'' \<longrightarrow> entity_markup e = ''**'' @ entity_text e @ ''**'')
   \<and> (entity_type e = ''italic'' \<longrightarrow> entity_markup e = ''*'' @ entity_text e @ ''*'')
   \<and> (entity_type e = ''strikethrough'' \<longrightarrow> entity_markup e = ''~~'' @ entity_text e @ ''~~'')
   \<and> (entity_type e = ''link'' \<longrightarrow>
        entity_markup e = ''['' @ entity_text e @ '']('' @ entity_text e @ '')'')
   \<and> (entity_type e = ''text_link'' \<and> entity_href e = Some target \<longrightarrow>
        entity_markup e = ''['' @ entity_text e @ '']('' @ target @ '')'')
   \<and> (entity_type e \<notin> {''bold'', ''italic'', ''strikethrough'', ''link'', ''text_link''} \<longrightarrow>
        entity_markup e = entity_text e)"
    by (simp add: entity_markup_def)
  from service content spans show ?thesis by simp
qed

theorem ParseMessageText_contract_witness:
  "ParseMessageText
     ((example_message 2 ''service'' example_entities)\<lparr>msg_action := Some ''pin_message''\<rparr>)
     = ''pin_message''
   \<and> ParseMessageText (example_message 2 ''service'' example_entities) = ''''
   \<and> ParseMessageText (example_message 1 ''message'' example_entities)
       = ''a **b***c*~~d~~[e.org](e.org)[f](g.org)h''
   \<and> ParseMessageText (example_message 3 ''message'' []) = ''''
   \<and> entity_markup (example_entities ! 5) = ''[f](g.org)''"
  using ParseMessageText_contract
          [of "(example_message 2 ''service'' example_entities)\<lparr>msg_action := Some ''pin_message''\<rparr>"]
        ParseMessageText_contract [of "example_message 2 ''service'' example_entities"]
        ParseMessageText_contract [of "example_message 1 ''message'' example_entities"
                                      "example_entities ! 5" "''g.org''"]
        ParseMessageText_contract [of "example_message 3 ''message'' []"]
  by (simp add: example_message_def example_entities_def entity_markup_def)

section \<open>Properties of the selection toggle\<close>

text \<open>
  Claim C10. Clicking the list item at an index of the candidate list negates that
  candidate's \<open>isToMigrate\<close> and nothing else: its message, \<open>isPendingMigrate\<close> and
  \<open>isMigrated\<close> are unchanged, every other candidate is unchanged and stays at its
  position, and the list keeps its length.
\<close>

theorem toggle_onClick_frame:
  assumes "index < length (messages s)"
  shows "messages (toggle_onClick index s)
           = (messages s)[index :=
                (messages s ! index)\<lparr>isToMigrate := \<not> isToMigrate (messages s ! index)\<rparr>]
       \<and> length (messages (toggle_onClick index s)) = length (messages s)
       \<and> isToMigrate (messages (toggle_onClick index s) ! index)
           = (\<not> isToMigrate (messages s ! index))
       \<and> message (messages (toggle_onClick index s) ! index) = message (messages s ! index)
       \<and> isPendingMigrate (messages (toggle_onClick index s) ! index)
           = isPendingMigrate (messages s ! index)
       \<and> isMigrated (messages (toggle_onClick index s) ! index) = isMigrated (messages s ! index)
       \<and> (\<forall>j. j < length (messages s) \<and> j \<noteq> index \<longrightarrow>
              messages (toggle_onClick index s) ! j = messages s ! j)"
  using assms
  by (simp add: toggle_onClick_def setMessages_def Let_def upd_conv_take_nth_drop nth_append
        min_def)

lemma example_page_messages:
  "messages (example_page fin incl)
     = map (parse_message \<lparr>includeService = incl\<rparr>
              \<lparr>finishedIDs = fin, progress_includeService = incl\<rparr>) example_export"
  by (simp add: example_page_def loadMessages_def initial_page_def io_return_def getSetting_def
        getProgress_def setMessages_def Let_def)

theorem toggle_onClick_frame_witness:
  "map isToMigrate (messages (example_page [] False)) = [True, False, True]
   \<and> map isToMigrate (messages (toggle_onClick 1 (example_page [] False))) = [True, True, True]
   \<and> map message (messages (toggle_onClick 1 (example_page [] False))) = example_export
   \<and> map isPendingMigrate (messages (toggle_onClick 1 (example_page [] False)))
       = [False, False, False]
   \<and> map isMigrated (messages (toggle_onClick 1 (example_page [] False)))
       = [False, False, False]"
  using toggle_onClick_frame [of 1 "example_page [] False"]
  by (simp add: example_page_messages example_export_def parse_message_def example_message_def)

section \<open>Properties of the list load\<close>

text \<open>
  Claim C4. For every loaded message, the candidate built for it is selected by default
  exactly when the message's identifier is not among the completed identifiers of the
  Progress Record read at load time and (the include-service setting is on or the message
  is not of kind service). For the export of messages 1 to 3 with none completed, the
  setting off and message 2 of kind service, the selection is 1 selected, 2 not selected,
  3 selected (the example below).
\<close>

theorem loadMessages_selection:
  assumes "load_export (outside s) = (Inr msgs, x')"
  shows "length (messages (loadMessages load_export s)) = length msgs
     \<and> (\<forall>i<length msgs.
          message (messages (loadMessages load_export s) ! i) = msgs ! i
        \<and> isToMigrate (messages (loadMessages load_export s) ! i)
            = (msg_id (msgs ! i) \<notin> set (finishedIDs (getProgress s))
               \<and> (includeService (getSetting s) \<or> msg_type (msgs ! i) \<noteq> ''service'')))"
  using assms
  by (simp add: loadMessages_def Let_def setMessages_def getProgress_def getSetting_def
        parse_message_def)

theorem loadMessages_selection_witness:
  "map (msg_id \<circ> message) (messages (example_page [] False)) = [1, 2, 3]
   \<and> map (msg_type \<circ> message) (messages (example_page [] False))
       = [''message'', ''service'', ''message'']
   \<and> map isToMigrate (messages (example_page [] False)) = [True, False, True]"
  using loadMessages_selection
          [of "io_return example_export"
              "initial_page \<lparr>finishedIDs = [], progress_includeService = False\<rparr>
                 \<lparr>includeService = False\<rparr> 0"
              example_export 0]
  by (simp add: example_page_messages example_export_def parse_message_def example_message_def)

section \<open>Properties of the signing context\<close>

text \<open>
  Claim C9. When \<open>initWithPrivateKey\<close> is given a non-empty private key and fails (the
  wallet, the contract or the connection throws), it rethrows that error and leaves the
  module uninitialised: the contract handle is null and the signer address is the empty
  string, so that \<open>getSignerAddress\<close>, \<open>checkOperator\<close>, \<open>addOperator\<close>,
  \<open>removeOperator\<close> and \<open>signerPostNote\<close> (both versions) fail their initialisation check
  afterwards, whatever the state of the outside world.
\<close>

theorem initWithPrivateKey_failure:
  assumes "privateKey \<noteq> []"
      and "initWithPrivateKey env privateKey st s = ((Inl e, st'), s')"
  shows "gContract st' = None \<and> signerAddress st' = []
       \<and> (let key = (if prefix ''0x'' privateKey then privateKey else ''0x'' @ privateKey)
          in Wallet_address env key = Inl e
             \<or> new_Contract env key = Inl e
             \<or> (\<exists>c. new_Contract env key = Inr c \<and> fst (connect env c (world s)) = Inl e))
       \<and> getSignerAddress st' = Inl (Error ''Contract not initialized.'')
       \<and> checkOperator env st' t = (Inl (Error ''Contract not initialized.''), t)
       \<and> addOperator env st' t = (Inl (Error ''Contract not initialized.''), t)
       \<and> removeOperator env st' t = (Inl (Error ''Contract not initialized.''), t)
       \<and> signerPostNote env st' m channelName t = (Inl (Error ''Contract not initialized.''), t)
       \<and> signerPostNote_contract env st' m' t = (Inl (Error ''Contract not initialized.''), t)"
proof -
  from assms have reset: "gContract st' = None \<and> signerAddress st' = []"
    by (auto simp: initWithPrivateKey_def Let_def logged_def split: sum.splits prod.splits if_splits)
  from assms have rethrown:
    "(let key = (if prefix ''0x'' privateKey then privateKey else ''0x'' @ privateKey)
          in Wallet_address env key = Inl e
             \<or> new_Contract env key = Inl e
             \<or> (\<exists>c. new_Contract env key = Inr c \<and> fst (connect env c (world s)) = Inl e))"
    by (auto simp: initWithPrivateKey_def Let_def logged_def split: sum.splits prod.splits if_splits)
  from reset have calls:
    "getSignerAddress st' = Inl (Error ''Contract not initialized.'')
       \<and> checkOperator env st' t = (Inl (Error ''Contract not initialized.''), t)
       \<and> addOperator env st' t = (Inl (Error ''Contract not initialized.''), t)
       \<and> removeOperator env st' t = (Inl (Error ''Contract not initialized.''), t)
       \<and> signerPostNote env st' m channelName t = (Inl (Error ''Contract not initialized.''), t)
       \<and> signerPostNote_contract env st' m' t = (Inl (Error ''Contract not initialized.''), t)"
    by (simp add: getSignerAddress_def checkOperator_def addOperator_def removeOperator_def
          signerPostNote_def signerPostNote_contract_def io_throw_def not_initialized_def)
  from reset rethrown calls show ?thesis by simp
qed

theorem initWithPrivateKey_failure_witness:
  "''beef'' \<noteq> []
   \<and> initWithPrivateKey (example_env [] True) ''beef'' example_module empty_ext
       = ((Inl (Error ''invalid private key''),
           \<lparr>gContract = None, signerAddress = [], characterId = 42\<rparr>), empty_ext)
   \<and> getSignerAddress example_module = Inr ''0xSigner''
   \<and> getSignerAddress \<lparr>gContract = None, signerAddress = [], characterId = 42\<rparr>
       = Inl (Error ''Contract not initialized.'')
   \<and> checkOperator (example_env [] True)
         \<lparr>gContract = None, signerAddress = [], characterId = 42\<rparr> empty_ext
       = (Inl (Error ''Contract not initialized.''), empty_ext)"
proof -
  have key: "''beef'' \<noteq> []"
    by simp
  have run: "initWithPrivateKey (example_env [] True) ''beef'' example_module empty_ext
       = ((Inl (Error ''invalid private key''),
           \<lparr>gContract = None, signerAddress = [], characterId = 42\<rparr>), empty_ext)"
    by (simp add: initWithPrivateKey_def example_env_def example_module_def)
  have before: "getSignerAddress example_module = Inr ''0xSigner''"
    by (simp add: getSignerAddress_def example_module_def)
  from initWithPrivateKey_failure [OF key run, of empty_ext] key run before
  show ?thesis by simp
qed

section \<open>The calls of the Note Publisher\<close>

lemma fetched_append [simp]: "fetched (xs @ ys) = fetched xs @ fetched ys"
  by (induction xs rule: fetched.induct) simp_all

lemma preparation_simps [simp]:
  "preparation []"
  "preparation (xs @ ys) = (preparation xs \<and> preparation ys)"
  "preparation ((c, r) # xs) = (r = None \<and> \<not> is_PostNote c \<and> preparation xs)"
  by (auto simp: preparation_def)

lemma logged_Inr:
  "logged c f s = (Inr x, s') \<Longrightarrow> calls s' = calls s @ [(c, None)]"
  by (auto simp: logged_def split: prod.splits)

lemma logged_Inl:
  "logged c f s = (Inl e, s') \<Longrightarrow> calls s' = calls s @ [(c, Some e)]"
  by (auto simp: logged_def split: prod.splits)

lemma logged_cases:
  obtains (ok) x s' where "logged c f s = (Inr x, s')" "calls s' = calls s @ [(c, None)]"
    | (fail) e s' where "logged c f s = (Inl e, s')" "calls s' = calls s @ [(c, Some e)]"
proof (cases "logged c f s")
  case (Pair r s')
  then show ?thesis
    by (cases r) (auto intro: ok fail dest: logged_Inr logged_Inl)
qed

lemma failed_step_prepend:
  "preparation xs \<Longrightarrow> failed_step e ys \<Longrightarrow> failed_step e (xs @ ys)"
  unfolding failed_step_def
  by (metis append.assoc preparation_simps(2))

lemma failed_step_single: "\<not> is_PostNote c \<Longrightarrow> failed_step e [(c, Some e)]"
  unfolding failed_step_def by (metis append_Nil preparation_simps(1))

lemma transfer_calls:
  assumes "transfer env src s = (r, s')"
  shows "\<exists>new. calls s' = calls s @ new
           \<and> (case r of Inr x \<Rightarrow> preparation new | Inl e \<Rightarrow> failed_step e new)"
proof (cases rule: logged_cases [of "Fetch src" "fetch env src" s])
  case (fail e s1)
  with assms have "r = Inl e" "s' = s1"
    by (simp_all add: transfer_def io_bind_def)
  with fail show ?thesis by (simp add: failed_step_single)
next
  case (ok result s1)
  note fetch_ok = ok
  show ?thesis
  proof (cases rule: logged_cases [of "ResponseBlob result" "blob env result" s1])
    case (fail e s2)
    with assms fetch_ok have "r = Inl e" "s' = s2"
      by (simp_all add: transfer_def io_bind_def)
    moreover have "failed_step e ([(Fetch src, None)] @ [(ResponseBlob result, Some e)])"
      by (rule failed_step_prepend) (simp_all add: failed_step_single)
    ultimately show ?thesis using fail fetch_ok by simp
  next
    case (ok b s2)
    note blob_ok = ok
    show ?thesis
    proof (cases rule: logged_cases [of "UploadFile b" "uploadFile env b" s2])
      case (fail e s3)
      with assms fetch_ok blob_ok have "r = Inl e" "s' = s3"
        by (simp_all add: transfer_def io_bind_def)
      moreover have "failed_step e ([(Fetch src, None), (ResponseBlob result, None)]
                                      @ [(UploadFile b, Some e)])"
        by (rule failed_step_prepend) (simp_all add: failed_step_single)
      ultimately show ?thesis using fail fetch_ok blob_ok by simp
    next
      case (ok ipfsUri s3)
      with assms fetch_ok blob_ok have "r = Inr (b, ipfsUri)" "s' = s3"
        by (simp_all add: transfer_def io_bind_def io_return_def)
      with ok fetch_ok blob_ok show ?thesis by simp
    qed
  qed
qed

lemma upload_file_transfer:
  "upload_file env m acc =
     (if \<not> truthy (msg_file m) then io_return acc
      else io_bind (transfer env (the (msg_file m))) (\<lambda>(b, ipfsUri).
             io_return
               (acc @ [\<lparr>att_name = file_name (the (msg_file m)), att_address = ipfsUri,
                 att_mime_type = or_else (msg_mime_type m) (blob_type b),
                 att_size_in_bytes = blob_size b, att_alt = file_name (the (msg_file m)),
                 att_width = msg_width m, att_height = msg_height m\<rparr>])))"
  by (simp add: upload_file_def transfer_def io_bind_def io_return_def Let_def fun_eq_iff
        split: prod.splits sum.splits)

lemma upload_photo_transfer:
  "upload_photo env m acc =
     (if \<not> truthy (msg_photo m) then io_return acc
      else io_bind (transfer env (the (msg_photo m))) (\<lambda>(b, ipfsUri).
             io_return
               (acc @ [\<lparr>att_name = file_name (the (msg_photo m)), att_address = ipfsUri,
                 att_mime_type = blob_type b,
                 att_size_in_bytes = blob_size b, att_alt = file_name (the (msg_photo m)),
                 att_width = msg_width m, att_height = msg_height m\<rparr>])))"
  by (simp add: upload_photo_def transfer_def io_bind_def io_return_def Let_def fun_eq_iff
        split: prod.splits sum.splits)

lemma transfer_then_return_calls:
  assumes "io_bind (transfer env src) (\<lambda>(b, ipfsUri). io_return (k b ipfsUri)) s = (r, s')"
  shows "\<exists>new. calls s' = calls s @ new
           \<and> (case r of Inr atts \<Rightarrow> preparation new | Inl e \<Rightarrow> failed_step e new)"
proof (cases "transfer env src s")
  case (Pair r1 s1)
  from transfer_calls [OF Pair] obtain new where
    new: "calls s1 = calls s @ new"
         "case r1 of Inr x \<Rightarrow> preparation new | Inl e \<Rightarrow> failed_step e new"
    by blast
  show ?thesis
  proof (cases r1)
    case (Inl e)
    with assms Pair have "r = Inl e" "s' = s1"
      by (simp_all add: io_bind_def)
    with new Inl show ?thesis by auto
  next
    case (Inr x)
    with assms Pair have "\<exists>atts. r = Inr atts" "s' = s1"
      by (auto simp: io_bind_def io_return_def split: prod.splits)
    with new Inr show ?thesis by auto
  qed
qed

lemma upload_file_calls:
  assumes "upload_file env m acc s = (r, s')"
  shows "\<exists>new. calls s' = calls s @ new
           \<and> (case r of Inr atts \<Rightarrow> preparation new | Inl e \<Rightarrow> failed_step e new)"
proof (cases "truthy (msg_file m)")
  case False
  with assms show ?thesis
    by (auto simp: upload_file_transfer io_return_def)
next
  case True
  with assms show ?thesis
    by (simp add: upload_file_transfer transfer_then_return_calls)
qed

lemma upload_photo_calls:
  assumes "upload_photo env m acc s = (r, s')"
  shows "\<exists>new. calls s' = calls s @ new
           \<and> (case r of Inr atts \<Rightarrow> preparation new | Inl e \<Rightarrow> failed_step e new)"
proof (cases "truthy (msg_photo m)")
  case False
  with assms show ?thesis
    by (auto simp: upload_photo_transfer io_return_def)
next
  case True
  with assms show ?thesis
    by (simp add: upload_photo_transfer transfer_then_return_calls)
qed

lemma upload_photos_calls:
  assumes "upload_photos env photos acc s = (r, s')"
  shows "\<exists>new. calls s' = calls s @ new
           \<and> (case r of
                 Inr atts \<Rightarrow> preparation new
                     \<and> fetched new = map (the \<circ> ph_photo) (takeWhile has_address photos)
               | Inl e \<Rightarrow> failed_step e new
                     \<and> prefix (fetched new) (map (the \<circ> ph_photo) (takeWhile has_address photos)))"
  using assms
proof (induction photos arbitrary: acc s)
  case Nil
  then show ?case by (auto simp: io_return_def)
next
  case (Cons photo rest)
  show ?case
  proof (cases "has_address photo")
    case False
    with Cons.prems show ?thesis by (auto simp: io_return_def has_address_def)
  next
    case True
    let ?src = "the (ph_photo photo)"
    show ?thesis
    proof (cases rule: logged_cases [of "Fetch ?src" "fetch env ?src" s])
      case (fail e s1)
      with Cons.prems True have "r = Inl e" "s' = s1"
        by (simp_all add: has_address_def io_bind_def Let_def)
      with fail True show ?thesis
        by (auto simp: failed_step_single)
    next
      case (ok result s1)
      note fetch_ok = ok
      show ?thesis
      proof (cases rule: logged_cases [of "ResponseBlob result" "blob env result" s1])
        case (fail e s2)
        with Cons.prems True fetch_ok have "r = Inl e" "s' = s2"
          by (simp_all add: has_address_def io_bind_def Let_def)
        with fail fetch_ok True have "calls s' = calls s @ [(Fetch ?src, None), (ResponseBlob result, Some e)]"
          by simp
        moreover have "failed_step e [(Fetch ?src, None), (ResponseBlob result, Some e)]"
          using failed_step_prepend [of "[(Fetch ?src, None)]" e "[(ResponseBlob result, Some e)]"]
          by (simp add: failed_step_single)
        ultimately show ?thesis using True \<open>r = Inl e\<close> by auto
      next
        case (ok b s2)
        note blob_ok = ok
        show ?thesis
        proof (cases rule: logged_cases [of "UploadFile b" "uploadFile env b" s2])
          case (fail e s3)
          with Cons.prems True fetch_ok blob_ok have "r = Inl e" "s' = s3"
            by (simp_all add: has_address_def io_bind_def Let_def)
          with fail fetch_ok blob_ok True
          have "calls s' = calls s @ [(Fetch ?src, None), (ResponseBlob result, None), (UploadFile b, Some e)]"
            by simp
          moreover have "failed_step e [(Fetch ?src, None), (ResponseBlob result, None), (UploadFile b, Some e)]"
            using failed_step_prepend [of "[(Fetch ?src, None), (ResponseBlob result, None)]" e "[(UploadFile b, Some e)]"]
            by (simp add: failed_step_single)
          ultimately show ?thesis using True \<open>r = Inl e\<close> by auto
        next
          case (ok ipfsUri s3)
          let ?acc = "acc @ [\<lparr>att_name = file_name ?src, att_address = ipfsUri, att_mime_type = blob_type b,
                 att_size_in_bytes = blob_size b, att_alt = file_name ?src,
                 att_width = ph_width photo, att_height = ph_height photo\<rparr>]"
          from Cons.prems True fetch_ok blob_ok ok
          have rec: "upload_photos env rest ?acc s3 = (r, s')"
            by (simp add: has_address_def io_bind_def Let_def)
          from Cons.IH [OF rec] obtain new where new: "calls s' = calls s3 @ new"
            "case r of
                 Inr atts \<Rightarrow> preparation new
                     \<and> fetched new = map (the \<circ> ph_photo) (takeWhile has_address rest)
               | Inl e \<Rightarrow> failed_step e new
                     \<and> prefix (fetched new) (map (the \<circ> ph_photo) (takeWhile has_address rest))"
            by blast
          let ?head = "[(Fetch ?src, None), (ResponseBlob result, None), (UploadFile b, None)]"
          have "calls s' = calls s @ (?head @ new)"
            using new(1) fetch_ok blob_ok ok by simp
          moreover have "case r of
                 Inr atts \<Rightarrow> preparation (?head @ new)
                     \<and> fetched (?head @ new) = map (the \<circ> ph_photo) (takeWhile has_address (photo # rest))
               | Inl e \<Rightarrow> failed_step e (?head @ new)
                     \<and> prefix (fetched (?head @ new)) (map (the \<circ> ph_photo) (takeWhile has_address (photo # rest)))"
            using new(2) True failed_step_prepend [of ?head _ new]
            by (auto split: sum.splits)
          ultimately show ?thesis by blast
        qed
      qed
    qed
  qed
qed

lemma upload_photos_records:
  assumes "upload_photos env photos acc s = (Inr atts, s')"
  shows "\<exists>new. atts = acc @ new
           \<and> map att_name new = map (file_name \<circ> the \<circ> ph_photo) (takeWhile has_address photos)
           \<and> map att_alt new = map (file_name \<circ> the \<circ> ph_photo) (takeWhile has_address photos)
           \<and> map att_width new = map ph_width (takeWhile has_address photos)
           \<and> map att_height new = map ph_height (takeWhile has_address photos)"
  using assms
proof (induction photos arbitrary: acc s)
  case Nil
  then show ?case by (simp add: io_return_def)
next
  case (Cons photo rest)
  show ?case
  proof (cases "has_address photo")
    case False
    with Cons.prems show ?thesis by (simp add: io_return_def has_address_def)
  next
    case True
    let ?src = "the (ph_photo photo)"
    from Cons.prems True have "\<exists>(b :: Blob) ipfsUri s3. upload_photos env rest
              (acc @ [\<lparr>att_name = file_name ?src, att_address = ipfsUri, att_mime_type = blob_type b,
                 att_size_in_bytes = blob_size b, att_alt = file_name ?src,
                 att_width = ph_width photo, att_height = ph_height photo\<rparr>]) s3 = (Inr atts, s')"
      by (auto simp: has_address_def io_bind_def Let_def split: prod.splits sum.splits)
    then obtain b :: Blob and ipfsUri s3 where
      rec: "upload_photos env rest
              (acc @ [\<lparr>att_name = file_name ?src, att_address = ipfsUri, att_mime_type = blob_type b,
                 att_size_in_bytes = blob_size b, att_alt = file_name ?src,
                 att_width = ph_width photo, att_height = ph_height photo\<rparr>]) s3 = (Inr atts, s')"
      by blast
    from Cons.IH [OF rec] True show ?thesis by auto
  qed
qed

lemma publish_attempt_failed:
  assumes "preparation xs" and "failed_step e ys"
  shows "publish_attempt (Inl e) (xs @ ys)"
proof -
  from assms(2) obtain pre c where ys: "ys = pre @ [(c, Some e)]" "preparation pre"
    unfolding failed_step_def by blast
  with assms(1) have "preparation (xs @ pre)" "xs @ ys = (xs @ pre) @ [(c, Some e)]"
    by simp_all
  then show ?thesis
    unfolding publish_attempt_def by (intro exI [of _ "xs @ pre"]) auto
qed

lemma publish_attempt_last:
  assumes "preparation pre"
  shows "publish_attempt (Inl e) (pre @ [(c, Some e)])"
    and "publish_attempt (Inl e) pre"
    and "publish_attempt (Inr u) (pre @ [(PostNote k cid uri, None)])"
  using assms unfolding publish_attempt_def
  by (auto intro!: exI [of _ pre])

lemma upload_json_post_note_calls:
  assumes media: "preparation media"
      and s2: "calls s2 = calls s @ media"
      and tail: "io_bind (logged (UploadJson note) (uploadJson env note))
                   (\<lambda>noteIPFSUri. logged (PostNote c cid noteIPFSUri) (postNote env c cid noteIPFSUri))
                   s2 = (r, s')"
  shows "\<exists>new. calls s' = calls s @ new \<and> publish_attempt r new"
proof (cases rule: logged_cases [of "UploadJson note" "uploadJson env note" s2])
  case (fail e s3)
  with tail have "r = Inl e" "s' = s3"
    by (simp_all add: io_bind_def)
  with fail s2 publish_attempt_last(1) [OF media] show ?thesis
    by simp
next
  case (ok uri s3)
  note json = ok
  have prep: "preparation (media @ [(UploadJson note, None)])"
    using media by simp
  show ?thesis
  proof (cases rule: logged_cases [of "PostNote c cid uri" "postNote env c cid uri" s3])
    case (fail e s4)
    with tail json have "r = Inl e" "s' = s4"
      by (simp_all add: io_bind_def)
    with fail json s2 publish_attempt_last(1) [OF prep, of e "PostNote c cid uri"] show ?thesis
      by simp
  next
    case (ok u s4)
    with tail json have "r = Inr u" "s' = s4"
      by (simp_all add: io_bind_def)
    with ok json s2 publish_attempt_last(3) [OF prep, of u c cid uri] show ?thesis
      by simp
  qed
qed

lemma signerPostNote_calls:
  assumes "signerPostNote env st m channelName s = (r, s')"
  shows "\<exists>new. calls s' = calls s @ new \<and> publish_attempt r new"
proof (cases "gContract st")
  case None
  with assms have "r = Inl not_initialized" "s' = s"
    by (simp_all add: signerPostNote_def io_throw_def)
  then show ?thesis
    using publish_attempt_last(2) [of "[]"] by simp
next
  case (Some c)
  let ?photos = "case msg_photos m of None \<Rightarrow> io_return [] | Some photos \<Rightarrow> upload_photos env photos []"
  obtain r1 s1 where photos: "?photos s = (r1, s1)"
    by (cases "?photos s")
  have "\<exists>new. calls s1 = calls s @ new
           \<and> (case r1 of Inr atts \<Rightarrow> preparation new | Inl e \<Rightarrow> failed_step e new)"
  proof (cases "msg_photos m")
    case None
    with photos show ?thesis by (auto simp: io_return_def)
  next
    case (Some ps)
    with photos have "upload_photos env ps [] s = (r1, s1)"
      by simp
    from upload_photos_calls [OF this] show ?thesis
      by (auto split: sum.splits)
  qed
  then obtain new1 where new1: "calls s1 = calls s @ new1"
      "case r1 of Inr atts \<Rightarrow> preparation new1 | Inl e \<Rightarrow> failed_step e new1"
    by blast
  show ?thesis
  proof (cases r1)
    case (Inl e)
    with assms Some photos have "r = Inl e" "s' = s1"
      by (simp_all add: signerPostNote_def io_bind_def)
    with new1 Inl publish_attempt_failed [of "[]" e new1] show ?thesis
      by simp
  next
    case (Inr photoAttachments)
    with new1 have prep1: "preparation new1"
      by simp
    obtain r2 s2 where upl: "upload_file env m photoAttachments s1 = (r2, s2)"
      by (cases "upload_file env m photoAttachments s1")
    from upload_file_calls [OF upl] obtain new2 where new2: "calls s2 = calls s1 @ new2"
      "case r2 of Inr atts \<Rightarrow> preparation new2 | Inl e \<Rightarrow> failed_step e new2"
      by blast
    show ?thesis
    proof (cases r2)
      case (Inl e)
      with assms Some photos Inr upl have "r = Inl e" "s' = s2"
        by (simp_all add: signerPostNote_def io_bind_def)
      with new1(1) new2 Inl publish_attempt_failed [OF prep1, of e new2] show ?thesis
        by simp
    next
      case (Inr mediaAttachments)
      with new2 prep1 have media: "preparation (new1 @ new2)"
        by simp
      from new1(1) new2(1) have s2: "calls s2 = calls s @ (new1 @ new2)"
        by simp
      show ?thesis
      proof (cases "toISOString env (msg_date m)")
        case (Inl e)
        with assms Some photos \<open>r1 = Inr photoAttachments\<close> upl Inr have "r = Inl e" "s' = s2"
          by (simp_all add: signerPostNote_def io_bind_def io_lift_def)
        with s2 publish_attempt_last(2) [OF media] show ?thesis
          by blast
      next
        case date: (Inr date_published)
        from assms Some photos \<open>r1 = Inr photoAttachments\<close> upl Inr date
        obtain doc where
          "io_bind (logged (UploadJson doc) (uploadJson env doc))
             (\<lambda>noteIPFSUri. logged (PostNote c (characterId st) noteIPFSUri)
                               (postNote env c (characterId st) noteIPFSUri)) s2 = (r, s')"
          by (simp add: signerPostNote_def io_bind_def [of "io_lift _"] io_bind_def [of "upload_file _ _ _"]
                io_bind_def [of "case_option _ _ _"] io_lift_def Let_def)
        from upload_json_post_note_calls [OF media s2 this] show ?thesis .
      qed
    qed
  qed
qed

lemma signerPostNote_contract_calls:
  assumes "signerPostNote_contract env st m s = (r, s')"
  shows "\<exists>new. calls s' = calls s @ new \<and> publish_attempt r new"
proof (cases "gContract st")
  case None
  with assms have "r = Inl not_initialized" "s' = s"
    by (simp_all add: signerPostNote_contract_def io_throw_def)
  then show ?thesis
    using publish_attempt_last(2) [of "[]"] by simp
next
  case (Some c)
  obtain r1 s1 where photo: "upload_photo env m [] s = (r1, s1)"
    by (cases "upload_photo env m [] s")
  from upload_photo_calls [OF photo] obtain new1 where new1: "calls s1 = calls s @ new1"
      "case r1 of Inr atts \<Rightarrow> preparation new1 | Inl e \<Rightarrow> failed_step e new1"
    by blast
  show ?thesis
  proof (cases r1)
    case (Inl e)
    with assms Some photo have "r = Inl e" "s' = s1"
      by (simp_all add: signerPostNote_contract_def io_bind_def)
    with new1 Inl publish_attempt_failed [of "[]" e new1] show ?thesis
      by simp
  next
    case (Inr photoAttachments)
    with new1 have prep1: "preparation new1"
      by simp
    obtain r2 s2 where upl: "upload_file env m photoAttachments s1 = (r2, s2)"
      by (cases "upload_file env m photoAttachments s1")
    from upload_file_calls [OF upl] obtain new2 where new2: "calls s2 = calls s1 @ new2"
      "case r2 of Inr atts \<Rightarrow> preparation new2 | Inl e \<Rightarrow> failed_step e new2"
      by blast
    show ?thesis
    proof (cases r2)
      case (Inl e)
      with assms Some photo Inr upl have "r = Inl e" "s' = s2"
        by (simp_all add: signerPostNote_contract_def io_bind_def)
      with new1(1) new2 Inl publish_attempt_failed [OF prep1, of e new2] show ?thesis
        by simp
    next
      case (Inr mediaAttachments)
      with new2 prep1 have media: "preparation (new1 @ new2)"
        by simp
      from new1(1) new2(1) have s2: "calls s2 = calls s @ (new1 @ new2)"
        by simp
      from assms Some photo \<open>r1 = Inr photoAttachments\<close> upl Inr
      obtain doc where
        "io_bind (logged (UploadJson doc) (uploadJson env doc))
           (\<lambda>noteIPFSUri. logged (PostNote c (characterId st) noteIPFSUri)
                             (postNote env c (characterId st) noteIPFSUri)) s2 = (r, s')"
        by (simp add: signerPostNote_contract_def io_bind_def [of "upload_file _ _ _"]
              io_bind_def [of "upload_photo _ _ _"] Let_def)
      from upload_json_post_note_calls [OF media s2 this] show ?thesis .
    qed
  qed
qed

lemma publish_attempt_consequences:
  assumes "publish_attempt r new"
  shows "(\<forall>c e. (c, Some e) \<in> set new \<longrightarrow> r = Inl e)
       \<and> (\<forall>c e. (c, Some e) \<in> set new \<and> \<not> is_PostNote c \<longrightarrow>
             \<not> (\<exists>c' r'. (c', r') \<in> set new \<and> is_PostNote c'))
       \<and> length (filter (\<lambda>(c, r'). is_PostNote c) new) \<le> 1
       \<and> (r = Inr () \<longrightarrow> (\<exists>c cid uri. (PostNote c cid uri, None) \<in> set new))"
proof -
  from assms obtain pre where pre: "preparation pre"
    "case r of Inl e \<Rightarrow> new = pre \<or> (\<exists>c. new = pre @ [(c, Some e)])
             | Inr u \<Rightarrow> (\<exists>c cid uri. new = pre @ [(PostNote c cid uri, None)])"
    unfolding publish_attempt_def by blast
  from pre(1) have none: "filter (\<lambda>(c, r'). is_PostNote c) pre = []"
    by (auto simp: preparation_def filter_empty_conv)
  show ?thesis
  proof (cases r)
    case (Inl e)
    with pre(2) consider "new = pre" | c where "new = pre @ [(c, Some e)]"
      by auto
    then show ?thesis
    proof cases
      case 1
      with pre(1) none Inl show ?thesis
        by (auto simp: preparation_def)
    next
      case 2
      with pre(1) none Inl show ?thesis
        by (auto simp: preparation_def)
    qed
  next
    case (Inr u)
    with pre(2) obtain c cid uri where "new = pre @ [(PostNote c cid uri, None)]"
      by auto
    with pre(1) none Inr show ?thesis
      by (auto simp: preparation_def)
  qed
qed

section \<open>The effects of a run\<close>

lemma completed_before_Suc:
  "i < length ms \<Longrightarrow>
     completed_before ms (Suc i)
       = completed_before ms i @ (if isToMigrate (ms ! i) then [msg_id (message (ms ! i))] else [])"
  by (simp add: completed_before_def take_Suc_conv_app_nth)

lemma run_loop_end:
  "\<not> i < length ms \<Longrightarrow> run_loop pub ms i s = (Inr (), s)"
  by (subst run_loop.simps) simp

lemma run_loop_skip:
  "i < length ms \<Longrightarrow> \<not> isToMigrate (ms ! i) \<Longrightarrow>
     run_loop pub ms i s
       = run_loop pub ms (Suc i)
           (s\<lparr>loadingMessage := processing_text i (length ms),
              effects := effects s @ candidate_effects p ms i\<rparr>)"
  by (subst run_loop.simps)
     (simp add: Let_def setLoadingMessage_processing_def candidate_effects_def)

lemma run_loop_fail:
  "i < length ms \<Longrightarrow> isToMigrate (ms ! i) \<Longrightarrow>
   pub (message (ms ! i)) (outside s) = (Inl e, x') \<Longrightarrow>
     run_loop pub ms i s
       = (Inl e,
          s\<lparr>loadingMessage := processing_text i (length ms),
             messages := pending_list ms i, outside := x',
             effects := effects s @ attempt_effects ms i (Some e)\<rparr>)"
  by (subst run_loop.simps)
     (simp add: Let_def setLoadingMessage_processing_def setMessages_def attempt_effects_def
        pending_list_def upd_conv_take_nth_drop)

lemma run_loop_ok:
  "i < length ms \<Longrightarrow> isToMigrate (ms ! i) \<Longrightarrow>
   pub (message (ms ! i)) (outside s) = (Inr u, x') \<Longrightarrow>
   finishedIDs (stored_progress s) = completed_before ms i \<Longrightarrow>
     run_loop pub ms i s
       = run_loop pub ms (Suc i)
           (s\<lparr>loadingMessage := processing_text i (length ms), outside := x',
              stored_progress := (stored_progress s)\<lparr>finishedIDs := completed_before ms (Suc i)\<rparr>,
              messages := done_list ms i,
              effects := effects s @ candidate_effects (stored_progress s) ms i\<rparr>)"
  by (subst run_loop.simps)
     (simp add: Let_def setLoadingMessage_processing_def setMessages_def setProgress_def
        getProgress_def attempt_effects_def candidate_effects_def pending_list_def done_list_def
        upd_conv_take_nth_drop completed_before_Suc)

lemma candidate_effects_progress [simp]:
  "candidate_effects (p\<lparr>finishedIDs := y\<rparr>) ms = candidate_effects p ms"
  by (simp add: candidate_effects_def fun_eq_iff)

lemma loop_effects_progress [simp]:
  "loop_effects (p\<lparr>finishedIDs := y\<rparr>) ms i k f = loop_effects p ms i k f"
  by (simp add: loop_effects_def)

lemma loop_effects_step:
  "i < k \<Longrightarrow> loop_effects p ms i k f = candidate_effects p ms i @ loop_effects p ms (Suc i) k f"
  by (simp add: loop_effects_def upt_conv_Cons)

lemma run_loop_closed_form:
  assumes "run_loop pub ms i s = (r, s')"
      and "i \<le> length ms"
      and "finishedIDs (stored_progress s) = completed_before ms i"
  shows "\<exists>k. loop_result pub ms i s r s' k"
  using assms
proof (induction "length ms - i" arbitrary: i s)
  case 0
  then have "i = length ms" by simp
  with "0.prems" have "r = Inr ()" "s' = s"
    by (simp_all add: run_loop_end)
  moreover have "stored_progress s = (stored_progress s)\<lparr>finishedIDs := completed_before ms i\<rparr>"
    using "0.prems"(3) [symmetric] by simp
  ultimately have "loop_result pub ms i s r s' i"
    using \<open>i = length ms\<close> by (simp add: loop_result_def loop_effects_def)
  then show ?case ..
next
  case (Suc d)
  then have less: "i < length ms" by simp
  show ?case
  proof (cases "isToMigrate (ms ! i)")
    case False
    let ?s1 = "s\<lparr>loadingMessage := processing_text i (length ms),
                  effects := effects s @ candidate_effects (stored_progress s) ms i\<rparr>"
    from Suc.prems(1) less False have run: "run_loop pub ms (Suc i) ?s1 = (r, s')"
      by (simp add: run_loop_skip [where p = "stored_progress s"])
    have fin: "finishedIDs (stored_progress ?s1) = completed_before ms (Suc i)"
      using Suc.prems(3) less False by (simp add: completed_before_Suc)
    from Suc.hyps(2) less have d: "d = length ms - Suc i" by simp
    from Suc.hyps(1) [OF d run _ fin] less obtain k where k: "loop_result pub ms (Suc i) ?s1 r s' k"
      by auto
    then have "loop_result pub ms i s r s' k"
      by (simp add: loop_result_def loop_effects_step [of i k])
    then show ?thesis ..
  next
    case True
    obtain r1 x' where pub: "pub (message (ms ! i)) (outside s) = (r1, x')"
      by (cases "pub (message (ms ! i)) (outside s)")
    show ?thesis
    proof (cases r1)
      case (Inl e)
      with Suc.prems(1) less True pub have "r = Inl e"
        "s' = s\<lparr>loadingMessage := processing_text i (length ms),
                 messages := pending_list ms i, outside := x',
                 effects := effects s @ attempt_effects ms i (Some e)\<rparr>"
        by (simp_all add: run_loop_fail)
      moreover have "stored_progress s = (stored_progress s)\<lparr>finishedIDs := completed_before ms i\<rparr>"
        using Suc.prems(3) [symmetric] by simp
      ultimately have "loop_result pub ms i s r s' i"
        using less True pub Inl by (auto simp: loop_result_def loop_effects_def)
      then show ?thesis ..
    next
      case (Inr u)
      let ?s5 = "s\<lparr>loadingMessage := processing_text i (length ms), outside := x',
              stored_progress := (stored_progress s)\<lparr>finishedIDs := completed_before ms (Suc i)\<rparr>,
              messages := done_list ms i,
              effects := effects s @ candidate_effects (stored_progress s) ms i\<rparr>"
      from Suc.prems(1,3) less True pub Inr have run: "run_loop pub ms (Suc i) ?s5 = (r, s')"
        by (simp add: run_loop_ok)
      have fin: "finishedIDs (stored_progress ?s5) = completed_before ms (Suc i)"
        by simp
      from Suc.hyps(2) less have d: "d = length ms - Suc i" by simp
      from Suc.hyps(1) [OF d run _ fin] less obtain k where k: "loop_result pub ms (Suc i) ?s5 r s' k"
        by auto
      then have "loop_result pub ms i s r s' k"
        by (simp add: loop_result_def loop_effects_step [of i k])
      then show ?thesis ..
    qed
  qed
qed

lemma start_onClick_closed_form:
  "\<exists>k failure. run_result pub s (start_onClick pub s) k failure"
proof -
  let ?s2 = "setProgress ((getProgress (s\<lparr>isLoading := True, loadingMessage := ''Initializing basic information...''\<rparr>))\<lparr>finishedIDs := []\<rparr>)
               (s\<lparr>isLoading := True, loadingMessage := ''Initializing basic information...''\<rparr>)"
  obtain r s3 where run: "run_loop pub (messages s) 0 ?s2 = (r, s3)"
    by (cases "run_loop pub (messages s) 0 ?s2")
  have fin: "finishedIDs (stored_progress ?s2) = completed_before (messages s) 0"
    by (simp add: setProgress_def completed_before_def)
  from run_loop_closed_form [OF run _ fin] obtain k where
    k: "loop_result pub (messages s) 0 ?s2 r s3 k"
    by auto
  have s': "start_onClick pub s
          = (case r of Inr u \<Rightarrow> s3\<lparr>route := Some ''/finish'', isLoading := False\<rparr>
             | Inl e \<Rightarrow> s3\<lparr>errorMessage := err_message e, isShowingError := True, isLoading := False\<rparr>)"
    using run by (simp add: start_onClick_def Let_def split: sum.splits)
  have "run_result pub s (start_onClick pub s) k (outcome r)"
  proof (cases r)
    case (Inl e)
    with k s' show ?thesis
      by (auto simp: run_result_def loop_result_def run_effects_def setProgress_def getProgress_def)
  next
    case (Inr u)
    with k s' show ?thesis
      by (auto simp: run_result_def loop_result_def run_effects_def setProgress_def getProgress_def)
  qed
  then show ?thesis by blast
qed

lemma in_candidate_effects:
  "SignerPostNote j m r \<in> set (candidate_effects p ms i)
     \<longleftrightarrow> j = i \<and> isToMigrate (ms ! i) \<and> m = message (ms ! i) \<and> r = None"
  "Processing j x \<in> set (candidate_effects p ms i) \<longleftrightarrow> j = i \<and> x = length ms"
  "SetMessages l \<in> set (candidate_effects p ms i)
     \<longleftrightarrow> isToMigrate (ms ! i) \<and> (l = pending_list ms i \<or> l = done_list ms i)"
  "SetProgress q \<in> set (candidate_effects p ms i)
     \<longleftrightarrow> isToMigrate (ms ! i) \<and> q = p\<lparr>finishedIDs := completed_before ms (Suc i)\<rparr>"
  by (auto simp: candidate_effects_def attempt_effects_def)

lemma in_attempt_effects:
  "SignerPostNote j m r \<in> set (attempt_effects ms k f) \<longleftrightarrow> j = k \<and> m = message (ms ! k) \<and> r = f"
  "Processing j x \<in> set (attempt_effects ms k f) \<longleftrightarrow> j = k \<and> x = length ms"
  "SetMessages l \<in> set (attempt_effects ms k f) \<longleftrightarrow> l = pending_list ms k"
  "SetProgress q \<notin> set (attempt_effects ms k f)"
  by (auto simp: attempt_effects_def)

lemma in_loop_effects:
  "SignerPostNote j m r \<in> set (loop_effects p ms i k f)
     \<longleftrightarrow> (i \<le> j \<and> j < k \<and> isToMigrate (ms ! j) \<and> m = message (ms ! j) \<and> r = None)
         \<or> (f \<noteq> None \<and> j = k \<and> m = message (ms ! k) \<and> r = f)"
  "Processing j x \<in> set (loop_effects p ms i k f)
     \<longleftrightarrow> x = length ms \<and> ((i \<le> j \<and> j < k) \<or> (f \<noteq> None \<and> j = k))"
  "SetMessages l \<in> set (loop_effects p ms i k f)
     \<longleftrightarrow> (\<exists>j. i \<le> j \<and> j < k \<and> isToMigrate (ms ! j) \<and> (l = pending_list ms j \<or> l = done_list ms j))
         \<or> (f \<noteq> None \<and> l = pending_list ms k)"
  "SetProgress q \<in> set (loop_effects p ms i k f)
     \<longleftrightarrow> (\<exists>j. i \<le> j \<and> j < k \<and> isToMigrate (ms ! j)
              \<and> q = p\<lparr>finishedIDs := completed_before ms (Suc j)\<rparr>)"
  by (auto simp: loop_effects_def in_candidate_effects in_attempt_effects split: option.splits)

lemma loop_effects_split:
  assumes "i \<le> j" and "j < k"
  shows "loop_effects p ms i k f
           = loop_effects p ms i j None @ candidate_effects p ms j @ loop_effects p ms (Suc j) k f"
proof -
  from assms have "[i..<k] = [i..<j] @ j # [Suc j..<k]"
    by (metis le_add_diff_inverse less_imp_le_nat upt_add_eq_append upt_conv_Cons)
  then show ?thesis
    by (simp add: loop_effects_def)
qed

lemma run_effects_new:
  assumes "run_result pub s s' k f"
  shows "drop (length (effects s)) (effects s') = run_effects (stored_progress s) (messages s) k f"
  using assms by (simp add: run_result_def)

lemma in_run_effects:
  "SignerPostNote j m r \<in> set (run_effects p ms k f)
     \<longleftrightarrow> (j < k \<and> isToMigrate (ms ! j) \<and> m = message (ms ! j) \<and> r = None)
         \<or> (f \<noteq> None \<and> j = k \<and> m = message (ms ! k) \<and> r = f)"
  "Processing j x \<in> set (run_effects p ms k f)
     \<longleftrightarrow> x = length ms \<and> (j < k \<or> (f \<noteq> None \<and> j = k))"
  "SetMessages l \<in> set (run_effects p ms k f)
     \<longleftrightarrow> (\<exists>j. j < k \<and> isToMigrate (ms ! j) \<and> (l = pending_list ms j \<or> l = done_list ms j))
         \<or> (f \<noteq> None \<and> l = pending_list ms k)"
  by (simp_all add: run_effects_def in_loop_effects)

lemma pending_before_call:
  assumes "j < k \<or> (f \<noteq> None \<and> j = k)" and "isToMigrate (ms ! j)"
  shows "\<exists>pre r rest. run_effects p ms k f
           = pre @ [SetMessages (pending_list ms j), SignerPostNote j (message (ms ! j)) r] @ rest"
proof (cases "j < k")
  case True
  let ?pre = "SetProgress (p\<lparr>finishedIDs := []\<rparr>) # loop_effects p ms 0 j None
                @ [Processing j (length ms)]"
  let ?rest = "[SetProgress (p\<lparr>finishedIDs := completed_before ms (Suc j)\<rparr>),
                SetMessages (done_list ms j)] @ loop_effects p ms (Suc j) k f"
  have "run_effects p ms k f
          = ?pre @ [SetMessages (pending_list ms j), SignerPostNote j (message (ms ! j)) None] @ ?rest"
    using True assms(2) loop_effects_split [of 0 j k p ms f]
    by (simp add: run_effects_def candidate_effects_def attempt_effects_def)
  then show ?thesis by blast
next
  case False
  with assms(1) obtain e where f: "f = Some e" "j = k"
    by auto
  let ?pre = "SetProgress (p\<lparr>finishedIDs := []\<rparr>) # loop_effects p ms 0 k None
                @ [Processing k (length ms)]"
  have "run_effects p ms k f
          = ?pre @ [SetMessages (pending_list ms j), SignerPostNote j (message (ms ! j)) (Some e)] @ []"
    using f by (simp add: run_effects_def loop_effects_def attempt_effects_def)
  then show ?thesis by blast
qed

lemma failed_call_run_result:
  assumes "SignerPostNote k m (Some e)
             \<in> set (drop (length (effects s)) (effects (start_onClick pub s)))"
  shows "run_result pub s (start_onClick pub s) k (Some e) \<and> m = message (messages s ! k)"
proof -
  from start_onClick_closed_form obtain k' f where
    res: "run_result pub s (start_onClick pub s) k' f"
    by blast
  with assms have "SignerPostNote k m (Some e)
                     \<in> set (run_effects (stored_progress s) (messages s) k' f)"
    by (simp add: run_effects_new)
  then have "f = Some e \<and> k' = k \<and> m = message (messages s ! k)"
    by (auto simp: in_run_effects)
  with res show ?thesis by simp
qed

section \<open>The example runs\<close>

lemma example_message_fields [simp]:
  "msg_id (example_message i t es) = i"
  "msg_type (example_message i t es) = t"
  by (simp_all add: example_message_def)

lemmas run_evaluation =
  start_onClick_def run_loop.simps failing_on_def Let_def setProgress_def getProgress_def
  setMessages_def setLoadingMessage_processing_def processing_text_def string_of_nat_def
  decimal_digits.simps digit_char_def pending_list_def done_list_def

lemma example_page_state:
  "example_page [] False
     = \<lparr>isLoading = False, loadingMessage = ''Loading messages...'', isShowingError = False,
        errorMessage = [], messages = example_candidates,
        stored_progress = \<lparr>finishedIDs = [], progress_includeService = False\<rparr>,
        stored_setting = \<lparr>includeService = False\<rparr>, route = None, outside = 0,
        effects = [SetMessages example_candidates]\<rparr>"
  by (simp add: example_page_def loadMessages_def initial_page_def io_return_def getSetting_def
        getProgress_def setMessages_def Let_def example_export_def parse_message_def
        example_candidates_def)

lemma completed_page_state:
  "example_page [1] False
     = \<lparr>isLoading = False, loadingMessage = ''Loading messages...'', isShowingError = False,
        errorMessage = [], messages = completed_candidates,
        stored_progress = \<lparr>finishedIDs = [1], progress_includeService = False\<rparr>,
        stored_setting = \<lparr>includeService = False\<rparr>, route = None, outside = 0,
        effects = [SetMessages completed_candidates]\<rparr>"
  by (simp add: example_page_def loadMessages_def initial_page_def io_return_def getSetting_def
        getProgress_def setMessages_def Let_def example_export_def parse_message_def
        completed_candidates_def)

lemma reselected_page_state:
  "reselected_page
     = \<lparr>isLoading = False, loadingMessage = ''Loading messages...'', isShowingError = False,
        errorMessage = [], messages = reselected_candidates,
        stored_progress = \<lparr>finishedIDs = [1], progress_includeService = False\<rparr>,
        stored_setting = \<lparr>includeService = False\<rparr>, route = None, outside = 0,
        effects = [SetMessages completed_candidates, SetMessages reselected_candidates]\<rparr>"
  by (simp add: reselected_page_def completed_page_state toggle_onClick_def setMessages_def
        completed_candidates_def reselected_candidates_def)

lemma photo_page_state:
  "photo_page
     = \<lparr>isLoading = False, loadingMessage = ''Loading messages...'', isShowingError = False,
        errorMessage = [], messages = photo_candidates,
        stored_progress = \<lparr>finishedIDs = [], progress_includeService = False\<rparr>,
        stored_setting = \<lparr>includeService = False\<rparr>, route = None, outside = empty_ext,
        effects = [SetMessages photo_candidates]\<rparr>"
  by (simp add: photo_page_def loadMessages_def initial_page_def io_return_def getSetting_def
        getProgress_def setMessages_def Let_def parse_message_def photo_candidates_def)

lemma example_failed_run:
  "start_onClick (failing_on 3) (example_page [] False)
     = \<lparr>isLoading = False, loadingMessage = ''Processing 2 of 3 notes...'', isShowingError = True,
        errorMessage = ''Failed to fetch'', messages = pending_list example_candidates 2,
        stored_progress = \<lparr>finishedIDs = [1], progress_includeService = False\<rparr>,
        stored_setting = \<lparr>includeService = False\<rparr>, route = None, outside = 1,
        effects =
          [SetMessages example_candidates,
           SetProgress \<lparr>finishedIDs = [], progress_includeService = False\<rparr>,
           Processing 0 3, SetMessages (pending_list example_candidates 0),
           SignerPostNote 0 (example_message 1 ''message'' []) None,
           SetProgress \<lparr>finishedIDs = [1], progress_includeService = False\<rparr>,
           SetMessages (done_list example_candidates 0),
           Processing 1 3,
           Processing 2 3, SetMessages (pending_list example_candidates 2),
           SignerPostNote 2 (example_message 3 ''message'' []) (Some (Error ''Failed to fetch''))]\<rparr>"
  by (simp add: example_page_state start_onClick_def run_loop.simps
        example_candidates_def failing_on_def Let_def setProgress_def getProgress_def
        setMessages_def setLoadingMessage_processing_def processing_text_def string_of_nat_def
        decimal_digits.simps digit_char_def pending_list_def done_list_def)

lemma example_complete_run:
  "start_onClick (failing_on 0) (example_page [] False)
     = \<lparr>isLoading = False, loadingMessage = ''Processing 2 of 3 notes...'', isShowingError = False,
        errorMessage = [], messages = done_list example_candidates 2,
        stored_progress = \<lparr>finishedIDs = [1, 3], progress_includeService = False\<rparr>,
        stored_setting = \<lparr>includeService = False\<rparr>, route = Some ''/finish'', outside = 2,
        effects =
          [SetMessages example_candidates,
           SetProgress \<lparr>finishedIDs = [], progress_includeService = False\<rparr>,
           Processing 0 3, SetMessages (pending_list example_candidates 0),
           SignerPostNote 0 (example_message 1 ''message'' []) None,
           SetProgress \<lparr>finishedIDs = [1], progress_includeService = False\<rparr>,
           SetMessages (done_list example_candidates 0),
           Processing 1 3,
           Processing 2 3, SetMessages (pending_list example_candidates 2),
           SignerPostNote 2 (example_message 3 ''message'' []) None,
           SetProgress \<lparr>finishedIDs = [1, 3], progress_includeService = False\<rparr>,
           SetMessages (done_list example_candidates 2)]\<rparr>"
  by (simp add: example_page_state run_evaluation example_candidates_def)

lemma example_resumed_run:
  "start_onClick (failing_on 0) (example_page [1] False)
     = \<lparr>isLoading = False, loadingMessage = ''Processing 2 of 3 notes...'', isShowingError = False,
        errorMessage = [], messages = done_list completed_candidates 2,
        stored_progress = \<lparr>finishedIDs = [3], progress_includeService = False\<rparr>,
        stored_setting = \<lparr>includeService = False\<rparr>, route = Some ''/finish'', outside = 1,
        effects =
          [SetMessages completed_candidates,
           SetProgress \<lparr>finishedIDs = [], progress_includeService = False\<rparr>,
           Processing 0 3, Processing 1 3,
           Processing 2 3, SetMessages (pending_list completed_candidates 2),
           SignerPostNote 2 (example_message 3 ''message'' []) None,
           SetProgress \<lparr>finishedIDs = [3], progress_includeService = False\<rparr>,
           SetMessages (done_list completed_candidates 2)]\<rparr>"
  by (simp add: completed_page_state run_evaluation completed_candidates_def)

lemma example_reselected_run:
  "effects (start_onClick (failing_on 0) reselected_page)
     = [SetMessages completed_candidates, SetMessages reselected_candidates,
        SetProgress \<lparr>finishedIDs = [], progress_includeService = False\<rparr>,
        Processing 0 3, SetMessages (pending_list reselected_candidates 0),
        SignerPostNote 0 (example_message 1 ''message'' []) None,
        SetProgress \<lparr>finishedIDs = [1], progress_includeService = False\<rparr>,
        SetMessages (done_list reselected_candidates 0),
        Processing 1 3,
        Processing 2 3, SetMessages (pending_list reselected_candidates 2),
        SignerPostNote 2 (example_message 3 ''message'' []) None,
        SetProgress \<lparr>finishedIDs = [1, 3], progress_includeService = False\<rparr>,
        SetMessages (done_list reselected_candidates 2)]"
  by (simp add: reselected_page_state run_evaluation reselected_candidates_def)

lemma example_reselected_failed_run:
  "start_onClick (failing_on 1) reselected_page
     = \<lparr>isLoading = False, loadingMessage = ''Processing 0 of 3 notes...'', isShowingError = True,
        errorMessage = ''Failed to fetch'', messages = pending_list reselected_candidates 0,
        stored_progress = \<lparr>finishedIDs = [], progress_includeService = False\<rparr>,
        stored_setting = \<lparr>includeService = False\<rparr>, route = None, outside = 0,
        effects =
          [SetMessages completed_candidates, SetMessages reselected_candidates,
           SetProgress \<lparr>finishedIDs = [], progress_includeService = False\<rparr>,
           Processing 0 3, SetMessages (pending_list reselected_candidates 0),
           SignerPostNote 0 (example_message 1 ''message'' []) (Some (Error ''Failed to fetch''))]\<rparr>"
  by (simp add: reselected_page_state run_evaluation reselected_candidates_def)

lemma example_publisher_1:
  "example_publisher (example_message 1 ''message'' []) s
     = (Inr (), \<lparr>world = Suc (world s),
                 calls = calls s @
                   [(UploadJson \<lparr>note_type = ''note'', note_sources = [''T2C'', ''Telegram''],
                                 note_content = [], note_attachments = [],
                                 note_date_published = None, note_external_urls = None\<rparr>, None),
                    (PostNote (Contract ''0x1234'') 42 ''ipfs://note'', None)]\<rparr>)"
  by (simp add: example_publisher_def signerPostNote_contract_def example_module_def
        example_env_def upload_photo_def upload_file_def io_bind_def io_return_def logged_def
        Let_def ParseMessageText_def example_message_def)

lemma example_publisher_3:
  "example_publisher ((example_message 3 ''message'' [])\<lparr>msg_photo := Some ''photos/c.jpg''\<rparr>) s
     = (Inl (Error ''Failed to fetch''),
        \<lparr>world = world s,
         calls = calls s @ [(Fetch ''photos/c.jpg'', Some (Error ''Failed to fetch''))]\<rparr>)"
  by (simp add: example_publisher_def signerPostNote_contract_def example_module_def
        example_env_def upload_photo_def io_bind_def io_return_def logged_def
        Let_def example_message_def)

lemma example_transfer_error_run:
  "start_onClick example_publisher photo_page
     = \<lparr>isLoading = False, loadingMessage = ''Processing 2 of 3 notes...'', isShowingError = True,
        errorMessage = ''Failed to fetch'', messages = pending_list photo_candidates 2,
        stored_progress = \<lparr>finishedIDs = [1], progress_includeService = False\<rparr>,
        stored_setting = \<lparr>includeService = False\<rparr>, route = None,
        outside =
          \<lparr>world = 1,
           calls =
             [(UploadJson \<lparr>note_type = ''note'', note_sources = [''T2C'', ''Telegram''],
                           note_content = [], note_attachments = [],
                           note_date_published = None, note_external_urls = None\<rparr>, None),
              (PostNote (Contract ''0x1234'') 42 ''ipfs://note'', None),
              (Fetch ''photos/c.jpg'', Some (Error ''Failed to fetch''))]\<rparr>,
        effects =
          [SetMessages photo_candidates,
           SetProgress \<lparr>finishedIDs = [], progress_includeService = False\<rparr>,
           Processing 0 3, SetMessages (pending_list photo_candidates 0),
           SignerPostNote 0 (example_message 1 ''message'' []) None,
           SetProgress \<lparr>finishedIDs = [1], progress_includeService = False\<rparr>,
           SetMessages (done_list photo_candidates 0),
           Processing 1 3,
           Processing 2 3, SetMessages (pending_list photo_candidates 2),
           SignerPostNote 2 ((example_message 3 ''message'' [])\<lparr>msg_photo := Some ''photos/c.jpg''\<rparr>)
             (Some (Error ''Failed to fetch''))]\<rparr>"
  by (simp add: photo_page_state start_onClick_def run_loop.simps Let_def setProgress_def
        getProgress_def setMessages_def setLoadingMessage_processing_def processing_text_def
        string_of_nat_def decimal_digits.simps digit_char_def pending_list_def done_list_def
        photo_candidates_def example_publisher_1 example_publisher_3 empty_ext_def)

lemma example_upload_photos:
  "upload_photos (example_env [] True) example_photos [] empty_ext
     = (Inr [\<lparr>att_name = ''a.jpg'', att_address = ''ipfs://file'', att_mime_type = ''image/jpeg'',
              att_size_in_bytes = 2048, att_alt = ''a.jpg'', att_width = Some 800,
              att_height = Some 600\<rparr>,
             \<lparr>att_name = ''b.jpg'', att_address = ''ipfs://file'', att_mime_type = ''image/jpeg'',
              att_size_in_bytes = 2048, att_alt = ''b.jpg'', att_width = Some 640,
              att_height = Some 480\<rparr>],
        \<lparr>world = 0,
         calls = [(Fetch ''photos/a.jpg'', None), (ResponseBlob (Response 12), None),
                  (UploadFile \<lparr>blob_type = ''image/jpeg'', blob_size = 2048\<rparr>, None),
                  (Fetch ''photos/b.jpg'', None), (ResponseBlob (Response 12), None),
                  (UploadFile \<lparr>blob_type = ''image/jpeg'', blob_size = 2048\<rparr>, None)]\<rparr>)"
  by (simp add: example_photos_def example_env_def empty_ext_def io_bind_def io_return_def
        logged_def file_name_def Let_def)

lemma example_failed_fetch:
  "signerPostNote (example_env ''photos/b.jpg'' True) example_module
     (example_post 7 (Some example_photos)) ''channel'' empty_ext
   = (Inl (Error ''Failed to fetch''), \<lparr>world = 0, calls = failed_fetch_calls\<rparr>)"
  by (simp add: signerPostNote_def example_module_def example_post_def example_photos_def
        example_env_def empty_ext_def io_bind_def io_return_def logged_def file_name_def
        Let_def failed_fetch_calls_def)

lemma string_of_int_7: "string_of_int 7 = ''7''"
  by (simp add: string_of_int_def string_of_nat_def decimal_digits.simps digit_char_def)

lemma not_named: "\<not> names_identifier (Error ''transaction rejected'') 7"
  by (simp add: names_identifier_def string_of_int_7 sublist_Cons_right)

section \<open>Properties of the Note Publisher\<close>

text \<open>
  Claim C7. The photo loop applied to an empty list of photo references yields an empty
  list of attachment records. Applied to any list it stops at the first reference without
  an address: only the references strictly before that one are fetched, in input order,
  whatever the outcome, and when the loop completes the attachment records are those of
  exactly these references, in input order. References after the first one without an
  address are not visited.
\<close>

theorem upload_photos_stops_at_first_missing_address:
  assumes "upload_photos env photos [] s = (r, s')"
  shows "upload_photos env [] [] s = (Inr [], s)
       \<and> prefix (fetched (drop (length (calls s)) (calls s')))
            (map (the \<circ> ph_photo) (takeWhile has_address photos))
       \<and> (\<forall>atts. r = Inr atts \<longrightarrow>
            fetched (drop (length (calls s)) (calls s'))
              = map (the \<circ> ph_photo) (takeWhile has_address photos)
          \<and> length atts = length (takeWhile has_address photos)
          \<and> map att_name atts = map (file_name \<circ> the \<circ> ph_photo) (takeWhile has_address photos)
          \<and> map att_alt atts = map (file_name \<circ> the \<circ> ph_photo) (takeWhile has_address photos)
          \<and> map att_width atts = map ph_width (takeWhile has_address photos)
          \<and> map att_height atts = map ph_height (takeWhile has_address photos))"
proof -
  have empty: "upload_photos env [] [] s = (Inr [], s)"
    by (simp add: io_return_def)
  from upload_photos_calls [OF assms] obtain new where
    new: "calls s' = calls s @ new"
      "case r of
         Inr atts \<Rightarrow> preparation new
             \<and> fetched new = map (the \<circ> ph_photo) (takeWhile has_address photos)
       | Inl e \<Rightarrow> failed_step e new
             \<and> prefix (fetched new) (map (the \<circ> ph_photo) (takeWhile has_address photos))"
    by blast
  from new(1) have drop: "drop (length (calls s)) (calls s') = new"
    by simp
  from new(2) have pre: "prefix (fetched new) (map (the \<circ> ph_photo) (takeWhile has_address photos))"
    by (cases r) simp_all
  have ok: "fetched new = map (the \<circ> ph_photo) (takeWhile has_address photos)
          \<and> length atts = length (takeWhile has_address photos)
          \<and> map att_name atts = map (file_name \<circ> the \<circ> ph_photo) (takeWhile has_address photos)
          \<and> map att_alt atts = map (file_name \<circ> the \<circ> ph_photo) (takeWhile has_address photos)
          \<and> map att_width atts = map ph_width (takeWhile has_address photos)
          \<and> map att_height atts = map ph_height (takeWhile has_address photos)"
    if "r = Inr atts" for atts
  proof -
    from assms that have run: "upload_photos env photos [] s = (Inr atts, s')"
      by simp
    from upload_photos_records [OF run] obtain recs where
      recs: "atts = recs"
        "map att_name recs = map (file_name \<circ> the \<circ> ph_photo) (takeWhile has_address photos)"
        "map att_alt recs = map (file_name \<circ> the \<circ> ph_photo) (takeWhile has_address photos)"
        "map att_width recs = map ph_width (takeWhile has_address photos)"
        "map att_height recs = map ph_height (takeWhile has_address photos)"
      by auto
    from recs(2) have "length recs = length (takeWhile has_address photos)"
      by (metis length_map)
    with recs new(2) that show ?thesis by simp
  qed
  from empty pre ok drop show ?thesis by simp
qed

theorem upload_photos_stops_at_first_missing_address_witness:
  "upload_photos (example_env [] True) example_photos [] empty_ext
     = (Inr [\<lparr>att_name = ''a.jpg'', att_address = ''ipfs://file'', att_mime_type = ''image/jpeg'',
              att_size_in_bytes = 2048, att_alt = ''a.jpg'', att_width = Some 800,
              att_height = Some 600\<rparr>,
             \<lparr>att_name = ''b.jpg'', att_address = ''ipfs://file'', att_mime_type = ''image/jpeg'',
              att_size_in_bytes = 2048, att_alt = ''b.jpg'', att_width = Some 640,
              att_height = Some 480\<rparr>],
        \<lparr>world = 0,
         calls = [(Fetch ''photos/a.jpg'', None), (ResponseBlob (Response 12), None),
                  (UploadFile \<lparr>blob_type = ''image/jpeg'', blob_size = 2048\<rparr>, None),
                  (Fetch ''photos/b.jpg'', None), (ResponseBlob (Response 12), None),
                  (UploadFile \<lparr>blob_type = ''image/jpeg'', blob_size = 2048\<rparr>, None)]\<rparr>)
   \<and> map ph_photo example_photos
       = [Some ''photos/a.jpg'', Some ''photos/b.jpg'', None, Some ''photos/d.jpg'']
   \<and> map (the \<circ> ph_photo) (takeWhile has_address example_photos)
       = [''photos/a.jpg'', ''photos/b.jpg'']"
  using upload_photos_stops_at_first_missing_address [OF example_upload_photos]
        example_upload_photos
  by (simp add: example_photos_def has_address_def)

text \<open>
  Claim C5, as amended. For every message and channel name, in one call of
  \<open>signerPostNote\<close>: the error of any failing call (retrieval, upload, persistence of the
  note or the transaction) is the error the call raises, unchanged; when a call other than
  the transaction fails, \<open>postNote\<close> is not called at all; \<open>postNote\<close> is called at most
  once; and the call returns normally only after \<open>postNote\<close> succeeded. A publisher call
  that throws leaves the candidate's \<open>isMigrated\<close> as it was and the completed identifiers
  without this call's message, whatever the publisher. The error of a rejected transaction
  is the chain client's own: nothing wraps it in an error that names the message
  identifier (the counterexample).
\<close>

theorem signerPostNote_failure_order:
  assumes "signerPostNote env st m channelName s = (r, s')"
      and "new = drop (length (calls s)) (calls s')"
  shows "calls s' = calls s @ new
       \<and> (\<forall>c e. (c, Some e) \<in> set new \<longrightarrow> r = Inl e)
       \<and> (\<forall>c e. (c, Some e) \<in> set new \<and> \<not> is_PostNote c \<longrightarrow>
             \<not> (\<exists>c' r'. (c', r') \<in> set new \<and> is_PostNote c'))
       \<and> length (filter (\<lambda>(c, r'). is_PostNote c) new) \<le> 1
       \<and> (r = Inr () \<longrightarrow> (\<exists>c cid uri. (PostNote c cid uri, None) \<in> set new))
       \<and> (\<forall>k msg e. SignerPostNote k msg (Some e)
                          \<in> set (drop (length (effects t)) (effects (start_onClick pub t))) \<longrightarrow>
             isMigrated (messages (start_onClick pub t) ! k) = isMigrated (messages t ! k)
           \<and> finishedIDs (stored_progress (start_onClick pub t))
               = completed_before (messages t) k)"
proof -
  from signerPostNote_calls [OF assms(1)] obtain new' where
    new': "calls s' = calls s @ new'" "publish_attempt r new'"
    by blast
  with assms(2) have "new' = new"
    by simp
  with new' publish_attempt_consequences [of r new] have publisher:
    "calls s' = calls s @ new
       \<and> (\<forall>c e. (c, Some e) \<in> set new \<longrightarrow> r = Inl e)
       \<and> (\<forall>c e. (c, Some e) \<in> set new \<and> \<not> is_PostNote c \<longrightarrow>
             \<not> (\<exists>c' r'. (c', r') \<in> set new \<and> is_PostNote c'))
       \<and> length (filter (\<lambda>(c, r'). is_PostNote c) new) \<le> 1
       \<and> (r = Inr () \<longrightarrow> (\<exists>c cid uri. (PostNote c cid uri, None) \<in> set new))"
    by simp
  have driver: "isMigrated (messages (start_onClick pub t) ! k) = isMigrated (messages t ! k)
           \<and> finishedIDs (stored_progress (start_onClick pub t))
               = completed_before (messages t) k"
    if "SignerPostNote k msg (Some e)
          \<in> set (drop (length (effects t)) (effects (start_onClick pub t)))" for k msg e
  proof -
    from failed_call_run_result [OF that]
    have "k < length (messages t)"
      "messages (start_onClick pub t) = pending_list (messages t) k"
      "stored_progress (start_onClick pub t)
         = (stored_progress t)\<lparr>finishedIDs := completed_before (messages t) k\<rparr>"
      by (simp_all add: run_result_def)
    then show ?thesis
      by (simp add: pending_list_def)
  qed
  from publisher driver show ?thesis
    by blast
qed

theorem signerPostNote_failure_order_witness:
  "signerPostNote (example_env ''photos/b.jpg'' True) example_module
     (example_post 7 (Some example_photos)) ''channel'' empty_ext
   = (Inl (Error ''Failed to fetch''), \<lparr>world = 0, calls = failed_fetch_calls\<rparr>)
   \<and> (Fetch ''photos/b.jpg'', Some (Error ''Failed to fetch'')) \<in> set failed_fetch_calls
   \<and> \<not> (\<exists>c' r'. (c', r') \<in> set failed_fetch_calls \<and> is_PostNote c')
   \<and> length (filter (\<lambda>(c, r'). is_PostNote c) failed_fetch_calls) \<le> 1
   \<and> SignerPostNote 2 (message (photo_candidates ! 2)) (Some (Error ''Failed to fetch''))
       \<in> set (drop (length (effects photo_page)) (effects (start_onClick example_publisher photo_page)))
   \<and> map isMigrated (messages (start_onClick example_publisher photo_page)) = [False, False, False]
   \<and> finishedIDs (stored_progress (start_onClick example_publisher photo_page)) = [1]"
proof -
  have new: "failed_fetch_calls
               = drop (length (calls empty_ext)) (calls \<lparr>world = 0 :: nat, calls = failed_fetch_calls\<rparr>)"
    by (simp add: empty_ext_def)
  have failing: "(Fetch ''photos/b.jpg'', Some (Error ''Failed to fetch'')) \<in> set failed_fetch_calls"
    by (simp add: failed_fetch_calls_def)
  have thrown: "SignerPostNote 2 (message (photo_candidates ! 2)) (Some (Error ''Failed to fetch''))
       \<in> set (drop (length (effects photo_page)) (effects (start_onClick example_publisher photo_page)))"
    by (simp add: example_transfer_error_run) (simp add: photo_page_state photo_candidates_def)
  have shown: "map isMigrated (messages (start_onClick example_publisher photo_page))
                 = [False, False, False]
             \<and> finishedIDs (stored_progress (start_onClick example_publisher photo_page)) = [1]"
    by (simp add: example_transfer_error_run) (simp add: photo_candidates_def pending_list_def)
  from signerPostNote_failure_order [OF example_failed_fetch new, of photo_page example_publisher]
    failing example_failed_fetch thrown shown
  show ?thesis
    by (metis is_PostNote.simps(3))
qed

theorem signerPostNote_publish_error_counterexample:
  "fst (signerPostNote (example_env [] False) example_module
          (example_post 7 (Some example_photos)) ''channel'' empty_ext)
     = Inl (Error ''transaction rejected'')
   \<and> (PostNote (Contract ''0x1234'') 42 ''ipfs://note'', Some (Error ''transaction rejected''))
       \<in> set (calls (snd (signerPostNote (example_env [] False) example_module
                            (example_post 7 (Some example_photos)) ''channel'' empty_ext)))
   \<and> msg_id (example_post 7 (Some example_photos)) = 7
   \<and> \<not> names_identifier (Error ''transaction rejected'') 7"
  by (simp add: signerPostNote_def example_module_def example_post_def example_photos_def
        example_env_def empty_ext_def io_bind_def io_return_def io_lift_def logged_def
        file_name_def Let_def not_named upload_file_def ParseMessageText_def entity_markup_def
        string_of_int_7)

section \<open>Properties of the Migration Driver\<close>

text \<open>
  Claim C1, as amended. For every candidate list and every index, the run calls the
  publisher for a candidate exactly when the loop reaches it and its \<open>isToMigrate\<close> is
  set, whether or not it is already done; the loop reaches only indexes of the list, and
  all of them unless a publisher call fails. After a successful call the next two things
  the run does are the write of the Progress Record with the candidate's identifier
  appended and the update that shows the candidate done; every later candidate is
  processed after that.
\<close>

theorem run_publishes_selected:
  assumes "ms = messages s"
      and "new = drop (length (effects s)) (effects (start_onClick pub s))"
  shows "(\<forall>j m. (\<exists>r. SignerPostNote j m r \<in> set new)
                 \<longleftrightarrow> (Processing j (length ms) \<in> set new \<and> isToMigrate (ms ! j)
                      \<and> m = message (ms ! j)))
       \<and> (\<forall>j x. Processing j x \<in> set new \<longrightarrow> j < length ms \<and> x = length ms)
       \<and> ((\<forall>j m e. SignerPostNote j m (Some e) \<notin> set new)
            \<longrightarrow> (\<forall>j<length ms. Processing j (length ms) \<in> set new))
       \<and> (\<forall>j m. SignerPostNote j m None \<in> set new \<longrightarrow>
            (\<exists>pre rest.
               new = pre @ [SignerPostNote j m None,
                            SetProgress ((stored_progress s)
                               \<lparr>finishedIDs := completed_before ms j @ [msg_id m]\<rparr>),
                            SetMessages (done_list ms j)] @ rest
             \<and> (\<forall>j' m' r. SignerPostNote j' m' r \<in> set pre \<longrightarrow> j' < j)
             \<and> (\<forall>j' x. Processing j' x \<in> set pre \<longrightarrow> j' \<le> j)
             \<and> (\<forall>j' m' r. SignerPostNote j' m' r \<in> set rest \<longrightarrow> j < j')
             \<and> (\<forall>j' x. Processing j' x \<in> set rest \<longrightarrow> j < j')
             \<and> isMigrated (done_list ms j ! j) \<and> \<not> isPendingMigrate (done_list ms j ! j)))"
proof -
  let ?p = "stored_progress s"
  from start_onClick_closed_form obtain k f where
    res: "run_result pub s (start_onClick pub s) k f"
    by blast
  with assms have new: "new = run_effects ?p ms k f"
    by (simp add: run_effects_new)
  from res assms(1) have k: "k \<le> length ms"
    and stop: "f = None \<longrightarrow> k = length ms"
    and fail: "f \<noteq> None \<longrightarrow> k < length ms \<and> isToMigrate (ms ! k)"
    by (auto simp: run_result_def split: option.splits)
  have invoked: "\<forall>j m. (\<exists>r. SignerPostNote j m r \<in> set new)
                 \<longleftrightarrow> (Processing j (length ms) \<in> set new \<and> isToMigrate (ms ! j)
                      \<and> m = message (ms ! j))"
    using fail by (auto simp: new in_run_effects)
  have reached: "\<forall>j x. Processing j x \<in> set new \<longrightarrow> j < length ms \<and> x = length ms"
    using k fail by (auto simp: new in_run_effects)
  have complete: "(\<forall>j m e. SignerPostNote j m (Some e) \<notin> set new)
            \<longrightarrow> (\<forall>j<length ms. Processing j (length ms) \<in> set new)"
  proof
    assume none: "\<forall>j m e. SignerPostNote j m (Some e) \<notin> set new"
    have "f = None"
    proof (cases f)
      case (Some e)
      then have "SignerPostNote k (message (ms ! k)) (Some e) \<in> set new"
        by (simp add: new in_run_effects)
      with none show ?thesis by blast
    qed simp
    with stop show "\<forall>j<length ms. Processing j (length ms) \<in> set new"
      by (simp add: new in_run_effects)
  qed
  have success: "\<exists>pre rest.
               new = pre @ [SignerPostNote j m None,
                            SetProgress (?p\<lparr>finishedIDs := completed_before ms j @ [msg_id m]\<rparr>),
                            SetMessages (done_list ms j)] @ rest
             \<and> (\<forall>j' m' r. SignerPostNote j' m' r \<in> set pre \<longrightarrow> j' < j)
             \<and> (\<forall>j' x. Processing j' x \<in> set pre \<longrightarrow> j' \<le> j)
             \<and> (\<forall>j' m' r. SignerPostNote j' m' r \<in> set rest \<longrightarrow> j < j')
             \<and> (\<forall>j' x. Processing j' x \<in> set rest \<longrightarrow> j < j')
             \<and> isMigrated (done_list ms j ! j) \<and> \<not> isPendingMigrate (done_list ms j ! j)"
    if "SignerPostNote j m None \<in> set new" for j m
  proof -
    from that have j: "j < k" "isToMigrate (ms ! j)" "m = message (ms ! j)"
      by (auto simp: new in_run_effects)
    with k have len: "j < length ms" by simp
    let ?pre = "SetProgress (?p\<lparr>finishedIDs := []\<rparr>) # loop_effects ?p ms 0 j None
                  @ [Processing j (length ms), SetMessages (pending_list ms j)]"
    let ?rest = "loop_effects ?p ms (Suc j) k f"
    have "new = ?pre @ [SignerPostNote j m None,
                        SetProgress (?p\<lparr>finishedIDs := completed_before ms j @ [msg_id m]\<rparr>),
                        SetMessages (done_list ms j)] @ ?rest"
      using j len loop_effects_split [of 0 j k ?p ms f]
      by (simp add: new run_effects_def candidate_effects_def attempt_effects_def
            completed_before_Suc)
    moreover have "(\<forall>j' m' r. SignerPostNote j' m' r \<in> set ?pre \<longrightarrow> j' < j)
             \<and> (\<forall>j' x. Processing j' x \<in> set ?pre \<longrightarrow> j' \<le> j)"
      by (auto simp: in_loop_effects)
    moreover have "(\<forall>j' m' r. SignerPostNote j' m' r \<in> set ?rest \<longrightarrow> j < j')
             \<and> (\<forall>j' x. Processing j' x \<in> set ?rest \<longrightarrow> j < j')"
      using j(1) by (auto simp: in_loop_effects)
    moreover have "isMigrated (done_list ms j ! j) \<and> \<not> isPendingMigrate (done_list ms j ! j)"
      using len by (simp add: done_list_def)
    ultimately show ?thesis by blast
  qed
  from invoked reached complete success show ?thesis
    by blast
qed

theorem run_publishes_selected_witness:
  "map isToMigrate (messages (example_page [] False)) = [True, False, True]
   \<and> SignerPostNote 0 (example_message 1 ''message'' []) None
       \<in> set (effects (start_onClick (failing_on 0) (example_page [] False)))
   \<and> SignerPostNote 1 (example_message 2 ''service'' []) None
       \<notin> set (effects (start_onClick (failing_on 0) (example_page [] False)))
   \<and> SignerPostNote 2 (example_message 3 ''message'' []) None
       \<in> set (effects (start_onClick (failing_on 0) (example_page [] False)))"
  using run_publishes_selected [OF refl refl, of "example_page [] False" "failing_on 0"]
  by (simp add: example_complete_run)
     (simp add: example_page_state example_candidates_def)

theorem run_republishes_done_counterexample:
  "isToMigrate (messages reselected_page ! 0) \<and> isMigrated (messages reselected_page ! 0)
   \<and> SignerPostNote 0 (message (messages reselected_page ! 0)) None
       \<in> set (effects (start_onClick (failing_on 0) reselected_page))"
  by (simp add: example_reselected_run)
     (simp add: reselected_page_state reselected_candidates_def)

text \<open>
  Claim C2, as amended. When the publisher fails on a candidate, the run stops there: the
  failing call is the last thing the run does, so no candidate after it is processed and
  the call is not repeated; the failing candidate is shown in progress with its
  \<open>isMigrated\<close> flag as it was when the run started, so the run does not mark it done (a
  candidate that was done already and selected again stays done, the counterexample); the
  completed identifiers of the Progress Record are those of the selected candidates
  strictly before it, each of which was published successfully in this run; and the text
  of the error is put in the error dialog, which is opened (the page does not navigate
  away).
\<close>

theorem run_stops_at_failure:
  assumes "SignerPostNote k m (Some e) \<in> set new"
      and "new = drop (length (effects s)) (effects (start_onClick pub s))"
  shows "k < length (messages s) \<and> isToMigrate (messages s ! k) \<and> m = message (messages s ! k)
       \<and> (\<exists>w. pub m w = (Inl e, outside (start_onClick pub s)))
       \<and> (\<exists>pre. new = pre @ [SignerPostNote k m (Some e)]
              \<and> (\<forall>j m' r. SignerPostNote j m' r \<in> set pre \<longrightarrow> j < k \<and> r = None)
              \<and> (\<forall>j x. Processing j x \<in> set pre \<longrightarrow> j \<le> k))
       \<and> messages (start_onClick pub s) = pending_list (messages s) k
       \<and> isMigrated (messages (start_onClick pub s) ! k) = isMigrated (messages s ! k)
       \<and> finishedIDs (stored_progress (start_onClick pub s)) = completed_before (messages s) k
       \<and> (\<forall>i \<in> set (finishedIDs (stored_progress (start_onClick pub s))).
             \<exists>j<k. i = msg_id (message (messages s ! j))
                  \<and> SignerPostNote j (message (messages s ! j)) None \<in> set new)
       \<and> errorMessage (start_onClick pub s) = err_message e
       \<and> isShowingError (start_onClick pub s)
       \<and> route (start_onClick pub s) = route s
       \<and> \<not> isLoading (start_onClick pub s)"
proof -
  let ?ms = "messages s" and ?s' = "start_onClick pub s" and ?p = "stored_progress s"
  from start_onClick_closed_form obtain k' f where res: "run_result pub s ?s' k' f"
    by blast
  with assms(2) have new: "new = run_effects ?p ?ms k' f"
    by (simp add: run_effects_new)
  with assms(1) have f: "f = Some e" and k: "k' = k" and m: "m = message (?ms ! k)"
    by (auto simp: in_run_effects)
  from res f k have facts: "k < length ?ms" "isToMigrate (?ms ! k)"
      "messages ?s' = pending_list ?ms k" "route ?s' = route s" "isShowingError ?s'"
      "errorMessage ?s' = err_message e" "\<not> isLoading ?s'"
      "stored_progress ?s' = ?p\<lparr>finishedIDs := completed_before ?ms k\<rparr>"
      "\<exists>w. pub (message (?ms ! k)) w = (Inl e, outside ?s')"
    by (simp_all add: run_result_def)
  let ?pre = "SetProgress (?p\<lparr>finishedIDs := []\<rparr>) # loop_effects ?p ?ms 0 k None
                @ [Processing k (length ?ms), SetMessages (pending_list ?ms k)]"
  have split: "new = ?pre @ [SignerPostNote k m (Some e)]"
    using new f k m by (simp add: run_effects_def loop_effects_def attempt_effects_def)
  have pre: "(\<forall>j m' r. SignerPostNote j m' r \<in> set ?pre \<longrightarrow> j < k \<and> r = None)
           \<and> (\<forall>j x. Processing j x \<in> set ?pre \<longrightarrow> j \<le> k)"
    by (auto simp: in_loop_effects)
  have same: "isMigrated (pending_list ?ms k ! k) = isMigrated (?ms ! k)"
    using facts(1) by (simp add: pending_list_def)
  have ids: "\<forall>i \<in> set (completed_before ?ms k).
               \<exists>j<k. i = msg_id (message (?ms ! j))
                    \<and> SignerPostNote j (message (?ms ! j)) None \<in> set new"
  proof
    fix i assume "i \<in> set (completed_before ?ms k)"
    then obtain c where c: "c \<in> set (take k ?ms)" "isToMigrate c" "i = msg_id (message c)"
      by (auto simp: completed_before_def)
    then obtain j where j: "j < k" "c = ?ms ! j"
      using facts(1) by (auto simp: in_set_conv_nth)
    with c new f k show "\<exists>j<k. i = msg_id (message (?ms ! j))
                    \<and> SignerPostNote j (message (?ms ! j)) None \<in> set new"
      by (auto simp: in_run_effects)
  qed
  from facts m split pre same ids show ?thesis
    by (simp del: append.simps) blast
qed

theorem run_stops_at_failure_witness:
  "SignerPostNote 2 (message (photo_candidates ! 2)) (Some (Error ''Failed to fetch''))
     \<in> set (drop (length (effects photo_page))
               (effects (start_onClick example_publisher photo_page)))
   \<and> map isToMigrate (messages photo_page) = [True, False, True]
   \<and> map isMigrated (messages (start_onClick example_publisher photo_page))
       = [False, False, False]
   \<and> map isPendingMigrate (messages (start_onClick example_publisher photo_page))
       = [False, False, True]
   \<and> finishedIDs (stored_progress (start_onClick example_publisher photo_page)) = [1]
   \<and> errorMessage (start_onClick example_publisher photo_page) = ''Failed to fetch''
   \<and> isShowingError (start_onClick example_publisher photo_page)
   \<and> route (start_onClick example_publisher photo_page) = None"
proof -
  have failing:
    "SignerPostNote 2 (message (photo_candidates ! 2)) (Some (Error ''Failed to fetch''))
       \<in> set (drop (length (effects photo_page))
                 (effects (start_onClick example_publisher photo_page)))"
    by (simp add: example_transfer_error_run) (simp add: photo_page_state photo_candidates_def)
  from run_stops_at_failure [OF failing refl] failing show ?thesis
    by (simp add: example_transfer_error_run)
       (simp add: photo_page_state photo_candidates_def pending_list_def)
qed

theorem run_failure_on_done_candidate_counterexample:
  "isToMigrate (messages reselected_page ! 0)
   \<and> SignerPostNote 0 (message (messages reselected_page ! 0)) (Some (Error ''Failed to fetch''))
       \<in> set (drop (length (effects reselected_page))
                 (effects (start_onClick (failing_on 1) reselected_page)))
   \<and> isShowingError (start_onClick (failing_on 1) reselected_page)
   \<and> isMigrated (messages (start_onClick (failing_on 1) reselected_page) ! 0)"
  by (simp add: example_reselected_failed_run)
     (simp add: reselected_page_state reselected_candidates_def pending_list_def)

text \<open>
  Claim C3. The first thing a run does is to write the Progress Record back with an empty
  list of completed identifiers (its other fields kept). The candidates it iterates over
  are those built by \<open>loadMessages\<close> from the record as it was at load time: a candidate is
  annotated \<open>isMigrated\<close>, and then left unselected, exactly when its identifier was
  completed in that record, so a run started on the loaded list publishes no message
  completed at load time although the record it could read at start is empty; the record
  it leaves holds identifiers published in this run only.
\<close>

theorem run_resets_progress_after_load_snapshot:
  assumes "load_export (outside s0) = (Inr msgs, x)"
      and "s = loadMessages load_export s0"
      and "new = drop (length (effects s)) (effects (start_onClick pub s))"
  shows "(\<exists>rest. new = SetProgress ((getProgress s)\<lparr>finishedIDs := []\<rparr>) # rest)
       \<and> getProgress s = getProgress s0
       \<and> length (messages s) = length msgs
       \<and> (\<forall>i<length msgs.
             isMigrated (messages s ! i) = (msg_id (msgs ! i) \<in> set (finishedIDs (getProgress s0)))
           \<and> (isMigrated (messages s ! i) \<longrightarrow> \<not> isToMigrate (messages s ! i)))
       \<and> (\<forall>j m r. SignerPostNote j m r \<in> set new \<longrightarrow>
             j < length msgs \<and> m = msgs ! j
           \<and> msg_id m \<notin> set (finishedIDs (getProgress s0)))
       \<and> set (finishedIDs (stored_progress (start_onClick pub s)))
            \<subseteq> {msg_id m |j m. SignerPostNote j m None \<in> set new}"
proof -
  from assms(1,2) have loaded:
    "messages s = map (parse_message (getSetting s0) (getProgress s0)) msgs"
    "getProgress s = getProgress s0"
    by (simp_all add: loadMessages_def Let_def setMessages_def getProgress_def getSetting_def)
  from start_onClick_closed_form obtain k f where
    res: "run_result pub s (start_onClick pub s) k f"
    by blast
  with assms(3) have new: "new = run_effects (stored_progress s) (messages s) k f"
    by (simp add: run_effects_new)
  from res have k: "k \<le> length (messages s)"
    "f \<noteq> None \<longrightarrow> k < length (messages s) \<and> isToMigrate (messages s ! k)"
    "stored_progress (start_onClick pub s)
       = (stored_progress s)\<lparr>finishedIDs := completed_before (messages s) k\<rparr>"
    by (auto simp: run_result_def split: option.splits)
  have first: "\<exists>rest. new = SetProgress ((getProgress s)\<lparr>finishedIDs := []\<rparr>) # rest"
    by (simp add: new run_effects_def getProgress_def)
  have annotated: "\<forall>i<length msgs.
             isMigrated (messages s ! i) = (msg_id (msgs ! i) \<in> set (finishedIDs (getProgress s0)))
           \<and> (isMigrated (messages s ! i) \<longrightarrow> \<not> isToMigrate (messages s ! i))"
    by (simp add: loaded parse_message_def Let_def)
  have published: "\<forall>j m r. SignerPostNote j m r \<in> set new \<longrightarrow>
             j < length msgs \<and> m = msgs ! j
           \<and> msg_id m \<notin> set (finishedIDs (getProgress s0))"
    using k(1,2) by (auto simp: new in_run_effects loaded(1) parse_message_def Let_def)
  have recorded: "set (finishedIDs (stored_progress (start_onClick pub s)))
            \<subseteq> {msg_id m |j m. SignerPostNote j m None \<in> set new}"
  proof
    fix i assume "i \<in> set (finishedIDs (stored_progress (start_onClick pub s)))"
    with k(3) have "i \<in> set (completed_before (messages s) k)"
      by simp
    then obtain c where c: "c \<in> set (take k (messages s))" "isToMigrate c" "i = msg_id (message c)"
      by (auto simp: completed_before_def)
    then obtain j where j: "j < k" "c = messages s ! j"
      using k(1) by (auto simp: in_set_conv_nth)
    with c have "SignerPostNote j (message c) None \<in> set new"
      by (simp add: new in_run_effects)
    with c(3) show "i \<in> {msg_id m |j m. SignerPostNote j m None \<in> set new}"
      by blast
  qed
  from first loaded annotated published recorded show ?thesis
    by simp
qed

theorem run_resets_progress_after_load_snapshot_witness:
  "finishedIDs (getProgress (example_page [1] False)) = [1]
   \<and> map isMigrated (messages (example_page [1] False)) = [True, False, False]
   \<and> map isToMigrate (messages (example_page [1] False)) = [False, False, True]
   \<and> drop (length (effects (example_page [1] False)))
        (effects (start_onClick (failing_on 0) (example_page [1] False)))
       = [SetProgress \<lparr>finishedIDs = [], progress_includeService = False\<rparr>,
          Processing 0 3, Processing 1 3,
          Processing 2 3, SetMessages (pending_list completed_candidates 2),
          SignerPostNote 2 (example_message 3 ''message'' []) None,
          SetProgress \<lparr>finishedIDs = [3], progress_includeService = False\<rparr>,
          SetMessages (done_list completed_candidates 2)]
   \<and> finishedIDs (stored_progress (start_onClick (failing_on 0) (example_page [1] False))) = [3]"
proof -
  have load: "io_return example_export
                (outside (initial_page \<lparr>finishedIDs = [1], progress_includeService = False\<rparr>
                            \<lparr>includeService = False\<rparr> (0 :: nat)))
              = (Inr example_export, 0)"
    by (simp add: io_return_def initial_page_def)
  have page: "example_page [1] False
              = loadMessages (io_return example_export)
                  (initial_page \<lparr>finishedIDs = [1], progress_includeService = False\<rparr>
                     \<lparr>includeService = False\<rparr> 0)"
    by (simp add: example_page_def)
  from run_resets_progress_after_load_snapshot [OF load page refl, of "failing_on 0"]
  show ?thesis
    by (simp add: example_resumed_run)
       (simp add: completed_page_state completed_candidates_def getProgress_def)
qed

text \<open>
  Claim C8, as amended. Every list the run displays differs from the click-time list at
  one selected candidate only, which is either in progress (\<open>isPendingMigrate\<close> set,
  \<open>isMigrated\<close> as it was, displayed immediately before that candidate's publisher call)
  or done (\<open>isMigrated\<close> set and \<open>isPendingMigrate\<close> cleared in the same update). So
  every displayed list satisfies ``migrated implies not pending'' when the click-time list
  has no pending candidate and no selected candidate that is already migrated, which holds
  of every list \<open>loadMessages\<close> builds; a migrated candidate that the user selects again is
  shown with both flags set while it is published (the counterexample).
\<close>

theorem run_candidate_flags:
  assumes "ms = messages s"
      and "new = drop (length (effects s)) (effects (start_onClick pub s))"
      and "SetMessages l \<in> set new"
  shows "(\<exists>j<length ms. isToMigrate (ms ! j) \<and> length l = length ms
            \<and> (\<forall>i<length ms. i \<noteq> j \<longrightarrow> l ! i = ms ! i)
            \<and> message (l ! j) = message (ms ! j) \<and> isToMigrate (l ! j)
            \<and> ((isPendingMigrate (l ! j) \<and> isMigrated (l ! j) = isMigrated (ms ! j)
                  \<and> (\<exists>pre r rest.
                        new = pre @ [SetMessages l, SignerPostNote j (message (ms ! j)) r] @ rest))
               \<or> (isMigrated (l ! j) \<and> \<not> isPendingMigrate (l ! j))))
       \<and> ((\<forall>c \<in> set ms. \<not> isPendingMigrate c \<and> (isToMigrate c \<longrightarrow> \<not> isMigrated c))
            \<longrightarrow> (\<forall>c \<in> set l. isMigrated c \<longrightarrow> \<not> isPendingMigrate c))
       \<and> (\<forall>c \<in> set (map (parse_message settings currentProgress) msgs).
             \<not> isPendingMigrate c \<and> (isToMigrate c \<longrightarrow> \<not> isMigrated c))"
proof -
  let ?p = "stored_progress s"
  from start_onClick_closed_form obtain k f where
    res: "run_result pub s (start_onClick pub s) k f"
    by blast
  with assms(1,2) have new: "new = run_effects ?p ms k f"
    by (simp add: run_effects_new)
  from res assms(1) have k: "k \<le> length ms"
    and fail: "f \<noteq> None \<longrightarrow> k < length ms \<and> isToMigrate (ms ! k)"
    by (auto simp: run_result_def split: option.splits)
  from assms(3) fail obtain j where
    j: "j < k \<or> (f \<noteq> None \<and> j = k)" "isToMigrate (ms ! j)"
       "l = pending_list ms j \<or> l = done_list ms j"
    by (auto simp: new in_run_effects)
  with k fail have len: "j < length ms"
    by auto
  have frame: "length l = length ms \<and> (\<forall>i<length ms. i \<noteq> j \<longrightarrow> l ! i = ms ! i)
            \<and> message (l ! j) = message (ms ! j) \<and> isToMigrate (l ! j)"
    using j(2,3) len by (auto simp: pending_list_def done_list_def)
  have flags: "(isPendingMigrate (l ! j) \<and> isMigrated (l ! j) = isMigrated (ms ! j)
                  \<and> (\<exists>pre r rest.
                        new = pre @ [SetMessages l, SignerPostNote j (message (ms ! j)) r] @ rest))
               \<or> (isMigrated (l ! j) \<and> \<not> isPendingMigrate (l ! j))"
  proof (cases "l = pending_list ms j")
    case True
    with len have "isPendingMigrate (l ! j) \<and> isMigrated (l ! j) = isMigrated (ms ! j)"
      by (simp add: pending_list_def)
    with pending_before_call [OF j(1,2), of ?p] True new show ?thesis
      by simp
  next
    case False
    with j(3) len show ?thesis
      by (simp add: done_list_def)
  qed
  have kept: "\<forall>c \<in> set l. isMigrated c \<longrightarrow> \<not> isPendingMigrate c"
    if ms: "\<forall>c \<in> set ms. \<not> isPendingMigrate c \<and> (isToMigrate c \<longrightarrow> \<not> isMigrated c)"
  proof
    fix c assume "c \<in> set l"
    then obtain i where i: "i < length l" "c = l ! i"
      by (auto simp: in_set_conv_nth)
    show "isMigrated c \<longrightarrow> \<not> isPendingMigrate c"
    proof (cases "i = j")
      case True
      from ms len j(2) have "\<not> isMigrated (ms ! j)"
        by auto
      with True i j(3) len show ?thesis
        by (auto simp: pending_list_def done_list_def)
    next
      case False
      with i frame have "c = ms ! i" "i < length ms"
        by auto
      with ms show ?thesis
        by auto
    qed
  qed
  have loaded: "\<forall>c \<in> set (map (parse_message settings currentProgress) msgs).
             \<not> isPendingMigrate c \<and> (isToMigrate c \<longrightarrow> \<not> isMigrated c)"
    by (simp add: parse_message_def Let_def)
  from len j(2) frame flags kept loaded show ?thesis
    by blast
qed

theorem run_candidate_flags_witness:
  "SetMessages (pending_list example_candidates 0)
     \<in> set (drop (length (effects (example_page [] False)))
               (effects (start_onClick (failing_on 3) (example_page [] False))))
   \<and> map isPendingMigrate (pending_list example_candidates 0) = [True, False, False]
   \<and> map isMigrated (pending_list example_candidates 0) = [False, False, False]
   \<and> map isPendingMigrate (done_list example_candidates 0) = [False, False, False]
   \<and> map isMigrated (done_list example_candidates 0) = [True, False, False]"
proof -
  have shown: "SetMessages (pending_list example_candidates 0)
     \<in> set (drop (length (effects (example_page [] False)))
               (effects (start_onClick (failing_on 3) (example_page [] False))))"
    by (simp add: example_failed_run) (simp add: example_page_state)
  from run_candidate_flags [OF refl refl shown] shown show ?thesis
    by (simp add: example_candidates_def pending_list_def done_list_def)
qed

theorem run_shows_done_and_pending_counterexample:
  "SetMessages (pending_list (messages reselected_page) 0)
       \<in> set (effects (start_onClick (failing_on 0) reselected_page))
   \<and> isMigrated (pending_list (messages reselected_page) 0 ! 0)
   \<and> isPendingMigrate (pending_list (messages reselected_page) 0 ! 0)"
  by (simp add: example_reselected_run)
     (simp add: reselected_page_state reselected_candidates_def pending_list_def)

end
